theory Spec2Isabelle
  imports Main "HOL-Library.Sublist" "HOL-Library.AList"
begin

section \<open>Files, paths and JSON values\<close>

text \<open>
  A path is the list of its components (\<open>/a/b/c\<close> is \<open>[''a'', ''b'', ''c'']\<close>), so that
  \<open>path.join(p, '..')\<close> and \<open>path.dirname\<close> are \<open>butlast\<close> and "below directory d" is
  \<open>prefix d\<close>.

  A JSON value keeps the property order of the JavaScript object it stands for. A number is
  identified by the text \<open>JSON.stringify\<close> prints for it.
\<close>

type_synonym path = "string list"

datatype json =
    JNull
  | JBool bool
  | JNum string
  | JStr string
  | JArr "json list"
  | JObj "(string \<times> json) list"

text \<open>
  The bytes of a file: plain bytes, a release archive with its members (path inside the
  archive, executable bit, bytes), or \<open>Pretty j s\<close>, the text
  \<open>JSON.stringify(j, null, 2)\<close> followed by \<open>s\<close>.
\<close>

datatype content =
    Bytes string
  | Packed "(path \<times> bool \<times> string) list"
  | Pretty json string

datatype node = Dir | File content bool

section \<open>The setup wizard's quick subcommand (bin/setup.js)\<close>

text \<open>
  The file system as \<open>fs.existsSync\<close>, \<open>fs.mkdirSync\<close> and \<open>fs.writeFileSync\<close> see it.
  Console output is left out of the model: it changes neither the files nor the exit status.
\<close>

type_synonym files = "path \<Rightarrow> node option"

record setup_env =
  se_platform :: string
  se_LOCALAPPDATA :: "path option"
  se_homedir :: path

definition CONFIG_DIR :: "setup_env \<Rightarrow> path" where
  "CONFIG_DIR e =
     (if se_platform e = ''win32''
      then (case se_LOCALAPPDATA e of None \<Rightarrow> [] | Some p \<Rightarrow> p) @ [''crush'']
      else se_homedir e @ [''.config'', ''crush''])"

definition CONFIG_FILE :: "setup_env \<Rightarrow> path" where
  "CONFIG_FILE e = CONFIG_DIR e @ [''crush.json'']"

definition OFFLINE_CONFIG :: "(string \<times> json) list" where
  "OFFLINE_CONFIG =
     [(''$schema'', JStr ''https://charm.land/crush.json''),
      (''options'', JObj
         [(''disable_provider_auto_update'', JBool True),
          (''disable_metrics'', JBool True),
          (''disable_default_providers'', JBool True),
          (''auto_lsp'', JBool True)])]"

text \<open>
  The answers object that \<open>quickSetup\<close> passes to a template: \<open>endpoint\<close>, \<open>deployment\<close> and
  \<open>modelName\<close>. \<open>None\<close> is \<open>undefined\<close>. \<open>contextWindow\<close> and \<open>maxTokens\<close> are absent
  there, so \<open>parseInt(undefined) || 128000\<close> and \<open>parseInt(undefined) || 4096\<close> are the
  defaults.
\<close>

record answers =
  endpoint :: "string option"
  deployment :: "string option"
  modelName :: "string option"

definition falsy :: "string option \<Rightarrow> bool" where
  "falsy x = (case x of None \<Rightarrow> True | Some s \<Rightarrow> s = [])"

definition or_default :: "string option \<Rightarrow> string \<Rightarrow> string" where
  "or_default x d = (if falsy x then d else the x)"

text \<open>A property whose value is \<open>undefined\<close> is not printed by \<open>JSON.stringify\<close>.\<close>

definition opt_prop :: "string \<Rightarrow> string option \<Rightarrow> (string \<times> json) list" where
  "opt_prop k x = (case x of None \<Rightarrow> [] | Some s \<Rightarrow> [(k, JStr s)])"

definition model_entry :: "string \<Rightarrow> string \<Rightarrow> bool \<Rightarrow> json" where
  "model_entry mid mname attach =
     JObj [(''id'', JStr mid), (''name'', JStr mname),
           (''context_window'', JNum ''128000''),
           (''default_max_tokens'', JNum ''4096''),
           (''cost_per_1m_in'', JNum ''0''),
           (''cost_per_1m_out'', JNum ''0''),
           (''cost_per_1m_in_cached'', JNum ''0''),
           (''cost_per_1m_out_cached'', JNum ''0''),
           (''can_reason'', JBool False),
           (''supports_attachments'', JBool attach),
           (''options'', JObj [])]"

record template =
  t_name :: string
  t_envVars :: "string list"
  t_config :: "answers \<Rightarrow> json"

definition azure_openai :: template where
  "azure_openai = \<lparr>
     t_name = ''Azure OpenAI'',
     t_envVars = [''AZURE_OPENAI_API_ENDPOINT'', ''AZURE_OPENAI_API_KEY'',
                  ''AZURE_OPENAI_API_VERSION''],
     t_config = (\<lambda>a. JObj
       ([(''type'', JStr ''azure'')] @ opt_prop ''base_url'' (endpoint a) @
        [(''api_key'', JStr ''$AZURE_OPENAI_API_KEY''),
         (''models'', JArr [model_entry (or_default (deployment a) ''gpt-4'')
                              (or_default (modelName a) ''GPT-4 (Azure)'') True])])) \<rparr>"

definition azure_foundry :: template where
  "azure_foundry = \<lparr>
     t_name = ''Azure AI Foundry'',
     t_envVars = [''AZURE_AI_FOUNDRY_ENDPOINT'', ''AZURE_AI_FOUNDRY_API_KEY''],
     t_config = (\<lambda>a. JObj
       ([(''type'', JStr ''openai-compat'')] @ opt_prop ''base_url'' (endpoint a) @
        [(''api_key'', JStr ''$AZURE_AI_FOUNDRY_API_KEY''),
         (''models'', JArr [model_entry (or_default (deployment a) ''gpt-4'')
                              (or_default (modelName a) ''GPT-4 (Azure AI Foundry)'') True])])) \<rparr>"

definition openai_compat :: template where
  "openai_compat = \<lparr>
     t_name = ''OpenAI-Compatible API'',
     t_envVars = [''CUSTOM_LLM_API_KEY''],
     t_config = (\<lambda>a. JObj
       ([(''type'', JStr ''openai-compat'')] @ opt_prop ''base_url'' (endpoint a) @
        [(''api_key'', JStr ''$CUSTOM_LLM_API_KEY''),
         (''models'', JArr [model_entry (or_default (deployment a) ''default'')
                              (or_default (modelName a) ''Custom Model'') True])])) \<rparr>"

definition ollama :: template where
  "ollama = \<lparr>
     t_name = ''Ollama (Local)'',
     t_envVars = [],
     t_config = (\<lambda>a. JObj
       [(''name'', JStr ''Ollama''), (''type'', JStr ''openai-compat''),
        (''base_url'', JStr (or_default (endpoint a) ''http://localhost:11434/v1/'')),
        (''models'', JArr [model_entry (or_default (deployment a) ''llama3:70b'')
                             (or_default (modelName a) ''Llama 3 70B'') False])]) \<rparr>"

text \<open>
  \<open>PROVIDER_TEMPLATES[providerType]\<close> is a property read on an object literal: an own
  property gives the template, a property that the literal inherits from
  \<open>Object.prototype\<close> gives that member (a function, or the prototype object itself for
  \<open>__proto__\<close>; truthy, and without a \<open>config\<close> property), anything else gives
  \<open>undefined\<close>.
\<close>

datatype looked_up = Own template | Inherited | Undefined

definition Object_prototype_keys :: "string list" where
  "Object_prototype_keys =
     [''constructor'', ''__defineGetter__'', ''__defineSetter__'', ''hasOwnProperty'',
      ''__lookupGetter__'', ''__lookupSetter__'', ''isPrototypeOf'',
      ''propertyIsEnumerable'', ''toString'', ''valueOf'', ''__proto__'',
      ''toLocaleString'']"

definition PROVIDER_TEMPLATES :: "string \<Rightarrow> looked_up" where
  "PROVIDER_TEMPLATES k =
     (if k = ''azure-openai'' then Own azure_openai
      else if k = ''azure-foundry'' then Own azure_foundry
      else if k = ''openai-compat'' then Own openai_compat
      else if k = ''ollama'' then Own ollama
      else if k \<in> set Object_prototype_keys then Inherited
      else Undefined)"

text \<open>\<open>args[i]\<close>: \<open>undefined\<close> beyond the end of the array.\<close>

definition arg :: "string list \<Rightarrow> nat \<Rightarrow> string option" where
  "arg args i = (if i < length args then Some (args ! i) else None)"

definition existsSync :: "files \<Rightarrow> path \<Rightarrow> bool" where
  "existsSync fs p = (p = [] \<or> fs p \<noteq> None)"

text \<open>
  \<open>fs.mkdirSync(p, {recursive: true})\<close> creates the missing ancestors and \<open>p\<close>; it throws
  (\<open>None\<close>) when one of them is a file.
\<close>

definition mkdirSync :: "path \<Rightarrow> files \<Rightarrow> files option" where
  "mkdirSync p fs =
     (if \<exists>q \<in> set (prefixes p). (case fs q of Some (File c x) \<Rightarrow> True | _ \<Rightarrow> False)
      then None
      else Some (\<lambda>q. if prefix q p \<and> q \<noteq> [] \<and> fs q = None then Some Dir else fs q))"

text \<open>
  \<open>fs.writeFileSync(p, text)\<close> throws when the parent is not a directory or \<open>p\<close> is one;
  an existing file keeps its mode.
\<close>

definition writeFileSync :: "path \<Rightarrow> content \<Rightarrow> files \<Rightarrow> files option" where
  "writeFileSync p c fs =
     (if p = [] \<or> \<not> (butlast p = [] \<or> fs (butlast p) = Some Dir) then None
      else (case fs p of
              Some Dir \<Rightarrow> None
            | Some (File old x) \<Rightarrow> Some (fs(p \<mapsto> File c x))
            | None \<Rightarrow> Some (fs(p \<mapsto> File c False))))"

text \<open>How a run of an \<open>async\<close> function ends.\<close>

datatype ending = Returned | Exited int | Threw

definition quickSetup :: "setup_env \<Rightarrow> string list \<Rightarrow> files \<Rightarrow> ending \<times> files" where
  "quickSetup e args fs =
     (let providerType = or_default (arg args 0) ''azure-foundry'';
          endpoint = arg args 1;
          deployment = or_default (arg args 2) ''gpt-4''
      in if falsy endpoint then (Exited 1, fs)
         else (case PROVIDER_TEMPLATES providerType of
                 Undefined \<Rightarrow> (Exited 1, fs)
               | Inherited \<Rightarrow> (Threw, fs)
               | Own template \<Rightarrow>
                   (let config = JObj (OFFLINE_CONFIG @
                          [(''providers'', JObj [(providerType,
                              t_config template \<lparr> endpoint = endpoint,
                                deployment = Some deployment,
                                modelName = Some deployment \<rparr>)])])
                    in (case (if \<not> existsSync fs (CONFIG_DIR e)
                              then mkdirSync (CONFIG_DIR e) fs else Some fs) of
                          None \<Rightarrow> (Threw, fs)
                        | Some fs1 \<Rightarrow>
                            (case writeFileSync (CONFIG_FILE e) (Pretty config []) fs1 of
                               None \<Rightarrow> (Threw, fs1)
                             | Some fs2 \<Rightarrow> (Returned, fs2))))))"

text \<open>
  \<open>main().catch(console.error)\<close> for \<open>crush-setup quick args\<close>: the exit status of the
  process and the files it leaves. A rejected promise is logged by \<open>console.error\<close> and
  the process then ends normally, with status 0.
\<close>

definition main_quick :: "setup_env \<Rightarrow> string list \<Rightarrow> files \<Rightarrow> int \<times> files" where
  "main_quick e args fs =
     (case quickSetup e args fs of
        (Exited n, fs') \<Rightarrow> (n, fs')
      | (Threw, fs') \<Rightarrow> (0, fs')
      | (Returned, fs') \<Rightarrow> (0, fs'))"

section \<open>The launcher (bin/crush.js, two versions of it)\<close>

text \<open>
  What the launcher reads from its process: \<open>process.platform\<close>, \<open>process.arch\<close>,
  \<open>__dirname\<close> (absolute, so \<open>..\<close> at the root stays at the root, as \<open>butlast []\<close>
  does), and \<open>require.resolve\<close> (\<open>None\<close> when it throws). Whether the operating system
  refuses a rename or a chmod (read-only file system, missing permission) is not decided by
  the launcher: the two predicates stand for it.
\<close>

record launcher_env =
  platform :: string
  arch :: string
  dirname :: path
  require_resolve :: "string \<Rightarrow> path option"
  rename_refused :: "path \<Rightarrow> bool"
  chmod_refused :: "path \<Rightarrow> bool"

text \<open>\<open>fs.renameSync\<close> and \<open>fs.chmodSync(p, 0o755)\<close>; \<open>None\<close> when they throw.\<close>

definition renameSync :: "launcher_env \<Rightarrow> path \<Rightarrow> path \<Rightarrow> files \<Rightarrow> files option" where
  "renameSync e old new fs =
     (case fs old of
        None \<Rightarrow> None
      | Some n \<Rightarrow> if rename_refused e old then None else Some (fs(old := None, new \<mapsto> n)))"

definition chmodSync :: "launcher_env \<Rightarrow> path \<Rightarrow> files \<Rightarrow> files option" where
  "chmodSync e p fs =
     (case fs p of
        None \<Rightarrow> None
      | Some Dir \<Rightarrow> if chmod_refused e p then None else Some fs
      | Some (File c x) \<Rightarrow> if chmod_refused e p then None else Some (fs(p \<mapsto> File c True)))"

definition executable :: "files \<Rightarrow> path \<Rightarrow> bool" where
  "executable fs p = (case fs p of Some (File c x) \<Rightarrow> x | _ \<Rightarrow> False)"

subsection \<open>The @offlinecli wrapper: findBinary with the disguised binary\<close>

definition getPlatformPackage :: "launcher_env \<Rightarrow> string" where
  "getPlatformPackage e = ''@offlinecli/crush'' @ ''-'' @ platform e @ ''-'' @ arch e"

definition getBinaryName :: "launcher_env \<Rightarrow> string" where
  "getBinaryName e = (if platform e = ''win32'' then ''crush.exe'' else ''crush'')"

definition disguisedName :: string where
  "disguisedName = ''crush.bin''"

text \<open>
  The registry-resolution entry of both candidate lists: \<open>require.resolve\<close> of the
  platform package's \<open>package.json\<close>, its directory, then \<open>rest\<close>; dropped by
  \<open>filter(Boolean)\<close> when the resolution throws.
\<close>

definition resolved :: "launcher_env \<Rightarrow> string \<Rightarrow> path \<Rightarrow> path list" where
  "resolved e pkg rest =
     (case require_resolve e (pkg @ ''/package.json'') of
        None \<Rightarrow> []
      | Some pkgPath \<Rightarrow> [butlast pkgPath @ rest])"

definition baseDirs :: "launcher_env \<Rightarrow> path list" where
  "baseDirs e =
     [butlast (butlast (dirname e)) @
        [''@offlinecli'', ''crush-'' @ platform e @ ''-'' @ arch e, ''bin''],
      butlast (butlast (butlast (dirname e))) @
        [''@offlinecli'', ''crush-'' @ platform e @ ''-'' @ arch e, ''bin'']]
     @ resolved e (getPlatformPackage e) [''bin'']"

text \<open>
  The body of the loop over the candidate directories, for one directory: \<open>Some\<close> is the
  path that \<open>findBinary\<close> returns from there, \<open>None\<close> is the body falling through to
  the next directory. The \<open>catch\<close> block runs when the rename throws, and also when the
  chmod after a rename throws.
\<close>

definition probe :: "launcher_env \<Rightarrow> path \<Rightarrow> files \<Rightarrow> path option \<times> files" where
  "probe e binDir fs =
     (let finalPath = binDir @ [getBinaryName e];
          disguisedPath = binDir @ [disguisedName];
          caught = (\<lambda>fs'.
            if platform e \<noteq> ''win32''
            then (case chmodSync e disguisedPath fs' of
                    Some fs'' \<Rightarrow> (Some disguisedPath, fs'')
                  | None \<Rightarrow> (None, fs'))
            else (None, fs'))
      in if existsSync fs finalPath then (Some finalPath, fs)
         else if existsSync fs disguisedPath
         then (case renameSync e disguisedPath finalPath fs of
                 None \<Rightarrow> caught fs
               | Some fs1 \<Rightarrow>
                   if platform e \<noteq> ''win32''
                   then (case chmodSync e finalPath fs1 of
                           None \<Rightarrow> caught fs1
                         | Some fs2 \<Rightarrow> (Some finalPath, fs2))
                   else (Some finalPath, fs1))
         else (None, fs))"

fun findBinary_in :: "launcher_env \<Rightarrow> path list \<Rightarrow> files \<Rightarrow> path option \<times> files" where
  "findBinary_in e [] fs = (None, fs)"
| "findBinary_in e (binDir # rest) fs =
     (case probe e binDir fs of
        (Some found, fs') \<Rightarrow> (Some found, fs')
      | (None, fs') \<Rightarrow> findBinary_in e rest fs')"

definition findBinary :: "launcher_env \<Rightarrow> files \<Rightarrow> path option \<times> files" where
  "findBinary e fs = findBinary_in e (baseDirs e) fs"

subsection \<open>The @anthropic-ai wrapper: findBinary over four locations\<close>





subsection \<open>main: the child's events and the forwarded signals\<close>

text \<open>
  The handlers that \<open>main\<close> installs, the same in both wrappers, and the calls they make.
  \<open>child.kill(signal)\<close> sends the signal when the child still has a process and then sets
  \<open>child.killed\<close>; after the exit it sends nothing and returns \<open>false\<close>.
\<close>

record child =
  running :: bool
  killed :: bool

datatype action =
    ConsoleError string
  | ProcessExit int
  | ProcessKill string
  | ChildKill string

datatype event =
    ChildError string
  | ChildExit "int option" "string option"
  | Received string

definition child_kill :: "string \<Rightarrow> child \<Rightarrow> child \<times> action list" where
  "child_kill signal c =
     (if running c then (c\<lparr>killed := True\<rparr>, [ChildKill signal]) else (c, []))"

definition forwarded :: "string list" where
  "forwarded = [''SIGINT'', ''SIGTERM'', ''SIGHUP'']"

text \<open>The listener that \<open>process.on(signal, ...)\<close> installs for each forwarded signal.\<close>

definition listener :: "string \<Rightarrow> child \<Rightarrow> child \<times> action list" where
  "listener signal c = (if \<not> killed c then child_kill signal c else (c, []))"

text \<open>
  How the launcher's process ends: with an exit status, or ended by a signal. A signal
  that reaches the launcher's process, from outside or from its own
  \<open>process.kill(process.pid, signal)\<close>, runs the listener when the launcher has one for
  it: node then leaves out the default action, and the process goes on. For a signal
  without a listener the launcher decides nothing: \<open>ends_by_default\<close> stands for what the
  operating system and node do with it, end the process or not.
\<close>

datatype launcher_end = Exit_status int | Ended_by string

definition deliver :: "(string \<Rightarrow> bool) \<Rightarrow> string \<Rightarrow> child
    \<Rightarrow> child \<times> action list \<times> launcher_end option" where
  "deliver ends_by_default signal c =
     (if signal \<in> set forwarded
      then (case listener signal c of (c', as) \<Rightarrow> (c', as, None))
      else (c, [], if ends_by_default signal then Some (Ended_by signal) else None))"

text \<open>
  The handlers of the child's \<open>error\<close> and \<open>exit\<close> events, and a signal received from
  outside: the child after the event, the calls made, and how the process has ended, if
  it has. The signal that the \<open>exit\<close> handler sends to its own process is delivered at
  once.
\<close>

fun handler :: "(string \<Rightarrow> bool) \<Rightarrow> child \<Rightarrow> event
    \<Rightarrow> child \<times> action list \<times> launcher_end option" where
  "handler ends_by_default c (ChildError message) =
     (c, [ConsoleError (''Failed to execute Crush: '' @ message), ProcessExit 1],
      Some (Exit_status 1))"
| "handler ends_by_default c (ChildExit code signal) =
     (if \<not> falsy signal
      then (case deliver ends_by_default (the signal) (c\<lparr>running := False\<rparr>) of
              (c', as, r) \<Rightarrow> (c', ProcessKill (the signal) # as, r))
      else (c\<lparr>running := False\<rparr>,
            [ProcessExit (case code of None \<Rightarrow> 1 | Some n \<Rightarrow> n)],
            Some (Exit_status (case code of None \<Rightarrow> 1 | Some n \<Rightarrow> n))))"
| "handler ends_by_default c (Received signal) = deliver ends_by_default signal c"

text \<open>
  The launcher over a sequence of events: the calls made and the end of the process.
  Nothing runs after the process has ended. When the events are over and the child has
  ended, nothing is left that node waits for (the child's streams are inherited, and a
  signal listener does not keep the process alive), so the process exits with status 0;
  \<open>None\<close> is a launcher that still waits for its child.
\<close>

fun launcher_run :: "(string \<Rightarrow> bool) \<Rightarrow> child \<Rightarrow> event list
    \<Rightarrow> action list \<times> launcher_end option" where
  "launcher_run ends_by_default c [] =
     ([], if running c then None else Some (Exit_status 0))"
| "launcher_run ends_by_default c (ev # evs) =
     (case handler ends_by_default c ev of
        (c', as, Some r) \<Rightarrow> (as, Some r)
      | (c', as, None) \<Rightarrow>
          (case launcher_run ends_by_default c' evs of (bs, r) \<Rightarrow> (as @ bs, r)))"

subsection \<open>Installations used as examples\<close>

text \<open>
  A Linux installation under \<open>/app/node_modules/@offlinecli\<close> where nothing is refused, one
  where every rename is refused (a read-only file system), and a platform package
  directory holding the binary under both names or under the disguised name only.
\<close>

definition ex_env :: launcher_env where
  "ex_env = \<lparr> platform = ''linux'', arch = ''x64'',
     dirname = [''app'', ''node_modules'', ''@offlinecli'', ''crush'', ''bin''],
     require_resolve = (\<lambda>m. None),
     rename_refused = (\<lambda>p. False), chmod_refused = (\<lambda>p. False) \<rparr>"



definition readonly_env :: "string \<Rightarrow> launcher_env" where
  "readonly_env pf = \<lparr> platform = pf, arch = ''x64'',
     dirname = [''app'', ''node_modules'', ''@offlinecli'', ''crush'', ''bin''],
     require_resolve = (\<lambda>m. None),
     rename_refused = (\<lambda>p. True), chmod_refused = (\<lambda>p. False) \<rparr>"

definition disguised_dir :: "string \<Rightarrow> path" where
  "disguised_dir pf = [''app'', ''node_modules'', ''@offlinecli'', ''crush-'' @ pf @ ''-x64'', ''bin'']"

definition disguised_only :: "string \<Rightarrow> files" where
  "disguised_only pf = [disguised_dir pf @ [''crush.bin''] \<mapsto> File (Bytes ''data'') False]"








section \<open>The package builder (scripts/build.sh)\<close>

text \<open>
  The disk as the script's commands see it: the entries in the order in which \<open>find\<close>
  meets them, each a path with a directory or a file. The script joins path segments with
  \<open>/\<close>; a version is taken to hold no \<open>/\<close>, so that \<open>archive_name\<close> is one segment.
\<close>

type_synonym disk = "(path \<times> node) list"

definition is_file :: "disk \<Rightarrow> path \<Rightarrow> bool" where
  "is_file d p = (case map_of d p of Some (File c x) \<Rightarrow> True | _ \<Rightarrow> False)"

definition is_dir :: "disk \<Rightarrow> path \<Rightarrow> bool" where
  "is_dir d p = (p = [] \<or> map_of d p = Some Dir)"

definition rm_rf :: "path \<Rightarrow> disk \<Rightarrow> disk" where
  "rm_rf p d = filter (\<lambda>e. \<not> prefix p (fst e)) d"

text \<open>\<open>rm -f p\<close> fails on a directory.\<close>

definition rm_f :: "path \<Rightarrow> disk \<Rightarrow> disk option" where
  "rm_f p d = (if map_of d p = Some Dir then None else Some (filter (\<lambda>e. fst e \<noteq> p) d))"

definition put :: "path \<Rightarrow> node \<Rightarrow> disk \<Rightarrow> disk" where
  "put p n d = (p, n) # filter (\<lambda>e. fst e \<noteq> p) d"

definition missing_dirs :: "path \<Rightarrow> disk \<Rightarrow> disk" where
  "missing_dirs p d =
     map (\<lambda>q. (q, Dir)) (filter (\<lambda>q. q \<noteq> [] \<and> map_of d q = None) (prefixes p))"

text \<open>\<open>mkdir -p p\<close> fails when \<open>p\<close> or one of its ancestors is a file.\<close>

definition mkdir_p :: "path \<Rightarrow> disk \<Rightarrow> disk option" where
  "mkdir_p p d =
     (if list_ex (is_file d) (prefixes p) then None else Some (missing_dirs p d @ d))"

text \<open>
  Writing a file through a redirection, \<open>curl -o\<close> or \<open>writeFileSync\<close>: it fails when the
  parent is not a directory or the target is one; an existing file keeps its mode.
\<close>

definition write_file :: "path \<Rightarrow> content \<Rightarrow> disk \<Rightarrow> disk option" where
  "write_file p c d =
     (if is_dir d (butlast p) \<and> p \<noteq> [] \<and> map_of d p \<noteq> Some Dir
      then Some (put p (File c (case map_of d p of Some (File old x) \<Rightarrow> x | _ \<Rightarrow> False)) d)
      else None)"

text \<open>\<open>chmod +x p 2>/dev/null || true\<close>.\<close>

definition chmod_x :: "path \<Rightarrow> disk \<Rightarrow> disk" where
  "chmod_x p d = map (\<lambda>(q, n). if q = p then (q, case n of Dir \<Rightarrow> Dir | File c x \<Rightarrow> File c True) else (q, n)) d"

subsection \<open>The platform tables\<close>

definition PACKAGE_SCOPE :: string where
  "PACKAGE_SCOPE = ''@anthropic-ai/crush-corp''"

definition PLATFORMS :: "(string \<times> string) list" where
  "PLATFORMS =
     [(''Linux_x86_64'', ''linux-x64''),
      (''Linux_arm64'', ''linux-arm64''),
      (''Darwin_x86_64'', ''darwin-x64''),
      (''Darwin_arm64'', ''darwin-arm64''),
      (''Windows_x86_64'', ''win32-x64''),
      (''Windows_arm64'', ''win32-arm64'')]"

definition OS_MAP :: "(string \<times> string) list" where
  "OS_MAP =
     [(''linux-x64'', ''linux''),
      (''linux-arm64'', ''linux''),
      (''darwin-x64'', ''darwin''),
      (''darwin-arm64'', ''darwin''),
      (''win32-x64'', ''win32''),
      (''win32-arm64'', ''win32'')]"

definition CPU_MAP :: "(string \<times> string) list" where
  "CPU_MAP =
     [(''linux-x64'', ''x64''),
      (''linux-arm64'', ''arm64''),
      (''darwin-x64'', ''x64''),
      (''darwin-arm64'', ''arm64''),
      (''win32-x64'', ''x64''),
      (''win32-arm64'', ''arm64'')]"

subsection \<open>What the script takes from outside\<close>

text \<open>
  \<open>ROOT_DIR\<close>; the order in which bash gives the keys of \<open>PLATFORMS\<close> (it is not the
  order of the declaration); what \<open>curl -fsSL -o\<close> does for a URL: it fetches the body, or
  fails and leaves nothing or a partial file; and \<open>JSON.parse\<close> on the bytes of a file.
\<close>

datatype fetch = Fetched content | Failed "content option"

record build_env =
  ROOT_DIR :: path
  key_order :: "string list"
  curl :: "string \<Rightarrow> fetch"
  JSON_parse :: "string \<Rightarrow> json option"

definition DIST_DIR :: "build_env \<Rightarrow> path" where
  "DIST_DIR e = ROOT_DIR e @ [''dist'']"

record build_state =
  disk :: disk
  BUILT_PLATFORMS :: "string list"

text \<open>
  One pass of the loop body ends in \<open>Next\<close> (the end of the body or \<open>continue\<close>) or in
  \<open>Abort\<close>: under \<open>set -e\<close> the script exits with the non-zero status of the command
  that failed. \<open>BUILT_PLATFORMS\<close> is kept as the list of the words of the shell variable.
\<close>

datatype 'a step = Next 'a | Abort 'a

subsection \<open>Download\<close>

definition archive_name :: "string \<Rightarrow> string \<Rightarrow> string \<Rightarrow> string" where
  "archive_name os VERSION archive_suffix =
     (if os = ''win32'' then ''crush_'' @ VERSION @ ''_'' @ archive_suffix @ ''.zip''
      else ''crush_'' @ VERSION @ ''_'' @ archive_suffix @ ''.tar.gz'')"

definition binary_name :: "string \<Rightarrow> string" where
  "binary_name os = (if os = ''win32'' then ''crush.exe'' else ''crush'')"

definition download_url :: "string \<Rightarrow> string \<Rightarrow> string" where
  "download_url VERSION name =
     ''https://github.com/charmbracelet/crush/releases/download/v'' @ VERSION @ ''/'' @ name"

definition curl_o :: "build_env \<Rightarrow> path \<Rightarrow> string \<Rightarrow> disk \<Rightarrow> bool \<times> disk" where
  "curl_o e out url d =
     (case curl e url of
        Fetched c \<Rightarrow> (case write_file out c d of Some d' \<Rightarrow> (True, d') | None \<Rightarrow> (False, d))
      | Failed None \<Rightarrow> (False, d)
      | Failed (Some c) \<Rightarrow> (case write_file out c d of Some d' \<Rightarrow> (False, d') | None \<Rightarrow> (False, d)))"

subsection \<open>Extraction\<close>

text \<open>
  An archive member is a file: its path inside the archive, its executable bit, its
  bytes. Unpacking writes every member at its target and makes the missing directories
  above it.
\<close>

type_synonym member = "path \<times> bool \<times> string"

definition archive_members :: "disk \<Rightarrow> path \<Rightarrow> member list option" where
  "archive_members d a =
     (case map_of d a of Some (File (Packed ms) x) \<Rightarrow> Some (filter (\<lambda>m. fst m \<noteq> []) ms) | _ \<Rightarrow> None)"

fun unpack :: "member list \<Rightarrow> disk \<Rightarrow> disk" where
  "unpack [] d = d"
| "unpack ((t, x, bytes) # ms) d =
     unpack ms (put t (File (Bytes bytes) x) (missing_dirs (butlast t) d @ d))"

definition retarget :: "(path \<Rightarrow> path) \<Rightarrow> member list \<Rightarrow> member list" where
  "retarget f ms = map (\<lambda>(p, x, bytes). (f p, x, bytes)) ms"

text \<open>
  \<open>tar -xzf a -C dest --strip-components=1 --wildcards "*/b"\<close>: with \<open>--wildcards\<close>
  the \<open>*\<close> of a member pattern matches \<open>/\<close> too, and a pattern also selects what lies
  below a directory it matches, so the members selected are those with \<open>b\<close> as a
  component after the first; each is unpacked without its first component; tar fails when
  the pattern selects nothing.
\<close>

definition tar_strip_wild :: "member list \<Rightarrow> string \<Rightarrow> path \<Rightarrow> disk \<Rightarrow> bool \<times> disk" where
  "tar_strip_wild ms b dest d =
     (let sel = filter (\<lambda>m. b \<in> set (tl (fst m))) ms
      in if sel = [] then (False, d) else (True, unpack (retarget (\<lambda>p. dest @ tl p) sel) d))"

text \<open>
  \<open>tar -xzf a -C dest b\<close>: the member \<open>b\<close> at the root of the archive, or what lies
  below a directory \<open>b\<close> there.
\<close>

definition tar_named :: "member list \<Rightarrow> string \<Rightarrow> path \<Rightarrow> disk \<Rightarrow> bool \<times> disk" where
  "tar_named ms b dest d =
     (let sel = filter (\<lambda>m. fst m \<noteq> [] \<and> hd (fst m) = b) ms
      in if sel = [] then (False, d) else (True, unpack (retarget (\<lambda>p. dest @ p) sel) d))"

text \<open>
  \<open>unzip -q -j a pattern -d dest\<close>: the pattern is matched against the whole member name
  and \<open>*\<close> matches \<open>/\<close> too; \<open>-j\<close> drops the directories; of several selected members
  the first is kept; unzip fails when the pattern selects nothing.
\<close>

definition unzip_junk :: "(path \<Rightarrow> bool) \<Rightarrow> member list \<Rightarrow> path \<Rightarrow> disk \<Rightarrow> bool \<times> disk" where
  "unzip_junk selected ms dest d =
     (case filter (\<lambda>m. selected (fst m)) ms of
        [] \<Rightarrow> (False, d)
      | (p, x, bytes) # others \<Rightarrow> (True, unpack [(dest @ [last p], x, bytes)] d))"

text \<open>\<open>unzip -q a -d dest\<close> fails on an archive without members.\<close>

definition unzip_all :: "member list \<Rightarrow> path \<Rightarrow> disk \<Rightarrow> bool \<times> disk" where
  "unzip_all ms dest d =
     (if ms = [] then (False, d) else (True, unpack (retarget (\<lambda>p. dest @ p) ms) d))"

text \<open>
  \<open>mv src dir/\<close> as \<open>find -exec\<close> runs it; the flag is the status of \<open>find\<close> itself, which
  the status of \<open>mv\<close> does not change. A source that is gone, a source that is the target,
  and a target that is a directory make \<open>mv\<close> fail. A directory of the searched name is
  moved with all below it when the target is free, and \<open>find\<close>, which then cannot descend
  into it, ends with a failure.
\<close>

definition mv_into :: "path \<Rightarrow> path \<Rightarrow> bool \<times> disk \<Rightarrow> bool \<times> disk" where
  "mv_into dir src acc =
     (let d = snd acc; tgt = dir @ [last src]
      in case map_of d src of
           None \<Rightarrow> acc
         | Some (File c x) \<Rightarrow>
             if src = tgt \<or> map_of d tgt = Some Dir then acc
             else (fst acc, put tgt (File c x) (filter (\<lambda>e. fst e \<noteq> src) d))
         | Some Dir \<Rightarrow>
             if src = tgt \<or> map_of d tgt \<noteq> None \<or> prefix src dir then acc
             else (False, map (\<lambda>(q, n). if prefix src q
                                        then (tgt @ drop (length src) q, n) else (q, n)) d))"

text \<open>\<open>find start -name b -exec mv {} dir/ \;\<close>\<close>

definition find_name_mv :: "path \<Rightarrow> string \<Rightarrow> path \<Rightarrow> disk \<Rightarrow> bool \<times> disk" where
  "find_name_mv start b dir d =
     (if is_dir d start
      then fold (mv_into dir)
             (map fst (filter (\<lambda>e. prefix start (fst e) \<and> fst e \<noteq> [] \<and> last (fst e) = b) d))
             (True, d)
      else (False, d))"

text \<open>\<open>find start -maxdepth 1 -type d -name "crush_*" -exec rm -rf {} \;\<close>\<close>

definition find_rm_crush_dirs :: "path \<Rightarrow> disk \<Rightarrow> bool \<times> disk" where
  "find_rm_crush_dirs start d =
     (if is_dir d start
      then (True, fold rm_rf
             (map fst (filter (\<lambda>e. snd e = Dir \<and> prefix start (fst e)
                                  \<and> length (fst e) \<le> length start + 1 \<and> fst e \<noteq> []
                                  \<and> prefix ''crush_'' (last (fst e))) d)) d)
      else (False, d))"

text \<open>\<open>tar -xzf a -C dest\<close>.\<close>

definition tar_all :: "member list \<Rightarrow> path \<Rightarrow> disk \<Rightarrow> bool \<times> disk" where
  "tar_all ms dest d = (True, unpack (retarget (\<lambda>p. dest @ p) ms) d)"

text \<open>
  The shell's lists: in \<open>a || b\<close> the command \<open>b\<close> runs when \<open>a\<close> has failed, in
  \<open>a && b\<close> when it has succeeded, on the disk that \<open>a\<close> has left; the status is that of
  the last command that ran.
\<close>

definition or_else :: "bool \<times> disk \<Rightarrow> (disk \<Rightarrow> bool \<times> disk) \<Rightarrow> bool \<times> disk" where
  "or_else r f = (if fst r then r else f (snd r))"

definition and_then :: "bool \<times> disk \<Rightarrow> (disk \<Rightarrow> bool \<times> disk) \<Rightarrow> bool \<times> disk" where
  "and_then r f = (if fst r then f (snd r) else r)"

text \<open>
  Lines 95-107: the three strategies, joined by \<open>||\<close>, and inside the third the commands
  joined by \<open>&&\<close>. The flag is the status of the whole list. A file that is not an
  archive makes every call of tar and unzip fail.
\<close>

definition extract_binary :: "string \<Rightarrow> path \<Rightarrow> string \<Rightarrow> path \<Rightarrow> disk \<Rightarrow> bool \<times> disk" where
  "extract_binary os archive_path b pkg_dir d =
     (case archive_members d archive_path of
        None \<Rightarrow> (False, d)
      | Some ms \<Rightarrow>
          if os = ''win32''
          then or_else (unzip_junk (\<lambda>p. 2 \<le> length p \<and> last p = b) ms (pkg_dir @ [''bin'']) d) (\<lambda>d1.
               or_else (unzip_junk (\<lambda>p. p = [b]) ms (pkg_dir @ [''bin'']) d1) (\<lambda>d2.
                 and_then (unzip_all ms (pkg_dir @ [''temp'']) d2) (\<lambda>d3.
                 and_then (find_name_mv (pkg_dir @ [''temp'']) b (pkg_dir @ [''bin'']) d3) (\<lambda>d4.
                   (True, rm_rf (pkg_dir @ [''temp'']) d4)))))
          else or_else (tar_strip_wild ms b (pkg_dir @ [''bin'']) d) (\<lambda>d1.
               or_else (tar_named ms b (pkg_dir @ [''bin'']) d1) (\<lambda>d2.
                 and_then (tar_all ms pkg_dir d2) (\<lambda>d3.
                 and_then (find_name_mv pkg_dir b (pkg_dir @ [''bin'']) d3) (\<lambda>d4.
                   find_rm_crush_dirs pkg_dir d4)))))"

subsection \<open>The files of a platform package\<close>

definition nl :: string where
  "nl = [CHR 0x0A]"

definition dq :: "string \<Rightarrow> string" where
  "dq s = [CHR 0x22] @ s @ [CHR 0x22]"

definition package_json :: "string \<Rightarrow> string \<Rightarrow> string \<Rightarrow> string \<Rightarrow> string" where
  "package_json VERSION npm_platform os cpu = concat (map (\<lambda>l. l @ nl)
     [''{'',
      ''  '' @ dq ''name'' @ '': '' @ dq (PACKAGE_SCOPE @ ''-'' @ npm_platform) @ '','',
      ''  '' @ dq ''version'' @ '': '' @ dq VERSION @ '','',
      ''  '' @ dq ''description'' @ '': '' @ dq (''Crush binary for '' @ npm_platform) @ '','',
      ''  '' @ dq ''license'' @ '': '' @ dq ''FSL-1.1-MIT'' @ '','',
      ''  '' @ dq ''repository'' @ '': {'',
      ''    '' @ dq ''type'' @ '': '' @ dq ''git'' @ '','',
      ''    '' @ dq ''url'' @ '': '' @ dq ''git+https://github.com/kj55-dev/crush-npm.git'',
      ''  },'',
      ''  '' @ dq ''os'' @ '': ['' @ dq os @ ''],'',
      ''  '' @ dq ''cpu'' @ '': ['' @ dq cpu @ ''],'',
      ''  '' @ dq ''files'' @ '': ['' @ dq ''bin/'' @ ''],'',
      ''  '' @ dq ''preferUnplugged'' @ '': true'',
      ''}''])"

definition README :: "string \<Rightarrow> string" where
  "README npm_platform = concat (map (\<lambda>l. l @ nl)
     [''# '' @ PACKAGE_SCOPE @ ''-'' @ npm_platform,
      '''',
      ''Platform-specific binary package for Crush on '' @ npm_platform @ ''.'',
      '''',
      ''This package is automatically installed as a dependency of ''
        @ [CHR 0x60] @ PACKAGE_SCOPE @ [CHR 0x60] @ ''.'',
      ''You should not need to install this package directly.'',
      '''',
      ''## About Crush'',
      '''',
      ''Crush is a glamorous agentic coding assistant for your terminal.'',
      ''Learn more at https://charm.sh/crush''])"

subsection \<open>The loop body, lines 58-153\<close>

definition archive_path :: "build_env \<Rightarrow> string \<Rightarrow> string \<Rightarrow> string \<Rightarrow> path" where
  "archive_path e os VERSION archive_suffix = DIST_DIR e @ [archive_name os VERSION archive_suffix]"

definition pkg_dir :: "build_env \<Rightarrow> string \<Rightarrow> path" where
  "pkg_dir e npm_platform = DIST_DIR e @ [''packages'', ''crush-corp-'' @ npm_platform]"

text \<open>
  Lines 88-152: the package directory, the extraction, the check that the binary is
  there, the two generated files, and the entry in \<open>BUILT_PLATFORMS\<close>.
\<close>

definition make_package :: "build_env \<Rightarrow> string \<Rightarrow> string \<Rightarrow> string \<Rightarrow> string \<Rightarrow> string \<Rightarrow> build_state
    \<Rightarrow> build_state step" where
  "make_package e VERSION archive_suffix npm_platform os cpu st =
     (let b = binary_name os; dir = pkg_dir e npm_platform
      in case mkdir_p (dir @ [''bin'']) (disk st) of
           None \<Rightarrow> Abort st
         | Some d1 \<Rightarrow>
            (case extract_binary os (archive_path e os VERSION archive_suffix) b dir d1 of
               (False, d2) \<Rightarrow> Abort (st\<lparr>disk := d2\<rparr>)
             | (True, d2) \<Rightarrow>
                (let d3 = chmod_x (dir @ [''bin'', b]) d2
                 in if \<not> is_file d3 (dir @ [''bin'', b])
                    then Next (st\<lparr>disk := rm_rf dir d3\<rparr>)
                    else (case write_file (dir @ [''package.json''])
                                 (Bytes (package_json VERSION npm_platform os cpu)) d3 of
                            None \<Rightarrow> Abort (st\<lparr>disk := d3\<rparr>)
                          | Some d4 \<Rightarrow>
                             (case write_file (dir @ [''README.md'']) (Bytes (README npm_platform)) d4 of
                                None \<Rightarrow> Abort (st\<lparr>disk := d4\<rparr>)
                              | Some d5 \<Rightarrow>
                                 Next \<lparr>disk = d5,
                                       BUILT_PLATFORMS = BUILT_PLATFORMS st @ [npm_platform]\<rparr>)))))"

text \<open>
  \<open>set -u\<close> makes the script exit at a key that a table does not have; the keys of the
  loop are those of \<open>PLATFORMS\<close>.
\<close>

definition buildOne :: "build_env \<Rightarrow> string \<Rightarrow> string \<Rightarrow> build_state \<Rightarrow> build_state step" where
  "buildOne e VERSION archive_suffix st =
     (case map_of PLATFORMS archive_suffix of
        None \<Rightarrow> Abort st
      | Some npm_platform \<Rightarrow>
         (case (map_of OS_MAP npm_platform, map_of CPU_MAP npm_platform) of
            (Some os, Some cpu) \<Rightarrow>
              (let archive = archive_path e os VERSION archive_suffix
               in if \<not> is_file (disk st) archive
                  then (case curl_o e archive
                               (download_url VERSION (archive_name os VERSION archive_suffix))
                               (disk st) of
                          (False, d1) \<Rightarrow>
                            (case rm_f archive d1 of
                               None \<Rightarrow> Abort (st\<lparr>disk := d1\<rparr>)
                             | Some d2 \<Rightarrow> Next (st\<lparr>disk := d2\<rparr>))
                        | (True, d1) \<Rightarrow>
                            make_package e VERSION archive_suffix npm_platform os cpu (st\<lparr>disk := d1\<rparr>))
                  else make_package e VERSION archive_suffix npm_platform os cpu st)
          | _ \<Rightarrow> Abort st))"

fun for_platforms :: "build_env \<Rightarrow> string \<Rightarrow> string list \<Rightarrow> build_state \<Rightarrow> build_state step" where
  "for_platforms e VERSION [] st = Next st"
| "for_platforms e VERSION (archive_suffix # rest) st =
     (case buildOne e VERSION archive_suffix st of
        Abort st' \<Rightarrow> Abort st'
      | Next st' \<Rightarrow> for_platforms e VERSION rest st')"

subsection \<open>The version of the root package, lines 155-171\<close>

text \<open>
  Bash puts the version between the quotes of \<open>'${VERSION}'\<close> as it is, and node reads
  the result as JavaScript. \<open>js_terms s\<close> reads the text \<open>s\<close> that follows the opening
  quote and ends with the closing quote of the script: string literals, made of plain
  characters and of the escapes \<open>\'\<close> \<open>\"\<close> \<open>\\\<close> \<open>\b\<close> \<open>\f\<close> \<open>\n\<close> \<open>\r\<close>
  \<open>\t\<close> \<open>\v\<close> and of a backslash before another ASCII character that starts no
  escape, joined by \<open>+\<close> with one another or with \<open>pkg.version\<close> between two of them.
  It is \<open>None\<close> for everything else (other text after a quote, a line break in a literal,
  numeric escapes), where the text is some other script.
\<close>

datatype js_term = Literal string | Pkg_version

definition single_escape :: "(char \<times> char) list" where
  "single_escape =
     [(CHR 0x27, CHR 0x27), (CHR 0x22, CHR 0x22), (CHR 0x5C, CHR 0x5C),
      (CHR ''b'', CHR 0x08), (CHR ''f'', CHR 0x0C), (CHR ''n'', CHR 0x0A),
      (CHR ''r'', CHR 0x0D), (CHR ''t'', CHR 0x09), (CHR ''v'', CHR 0x0B)]"

definition starts_other_escape :: "char \<Rightarrow> bool" where
  "starts_other_escape c =
     (c \<in> set ''0123456789xu'' \<or> c = CHR 0x0A \<or> c = CHR 0x0D \<or> (128::nat) \<le> of_char c)"

definition add_char :: "char \<Rightarrow> js_term list \<Rightarrow> js_term list" where
  "add_char c ts =
     (case ts of Literal s # rest \<Rightarrow> Literal (c # s) # rest | _ \<Rightarrow> Literal [c] # ts)"

fun js_terms :: "string \<Rightarrow> js_term list option" where
  "js_terms [] = None"
| "js_terms (c # cs) =
     (if c = CHR 0x27
      then (if cs = [] then Some [Literal []]
            else if take 2 cs = CHR ''+'' # [CHR 0x27]
            then map_option ((#) (Literal [])) (js_terms (drop 2 cs))
            else if take 14 cs = ''+pkg.version+'' @ [CHR 0x27]
            then map_option (\<lambda>ts. Literal [] # Pkg_version # ts) (js_terms (drop 14 cs))
            else None)
      else if c = CHR 0x5C
      then (case cs of
              [] \<Rightarrow> None
            | c' # cs' \<Rightarrow>
               (case map_of single_escape c' of
                  Some v \<Rightarrow> map_option (add_char v) (js_terms cs')
                | None \<Rightarrow> if starts_other_escape c' then None
                           else map_option (add_char c') (js_terms cs')))
      else if c = CHR 0x0A \<or> c = CHR 0x0D then None
      else map_option (add_char c) (js_terms cs))"

text \<open>
  The string that \<open>+\<close> makes of a value after a string: the text of a primitive value,
  the elements of an array joined by commas (nothing for \<open>null\<close>), and
  \<open>[object Object]\<close>.
\<close>

fun join :: "string list \<Rightarrow> string" where
  "join [] = []"
| "join [s] = s"
| "join (s # t # rest) = s @ '','' @ join (t # rest)"

fun ToString :: "json \<Rightarrow> string" where
  "ToString JNull = ''null''"
| "ToString (JBool b) = (if b then ''true'' else ''false'')"
| "ToString (JNum n) = n"
| "ToString (JStr s) = s"
| "ToString (JArr xs) = join (map (\<lambda>x. if x = JNull then [] else ToString x) xs)"
| "ToString (JObj props) = ''[object Object]''"

text \<open>
  The value of the terms joined by \<open>+\<close>, when \<open>pkg\<close> is the object with the properties
  \<open>props\<close>; a property that the object does not have reads as \<open>undefined\<close>.
\<close>

definition js_value :: "js_term list \<Rightarrow> (string \<times> json) list \<Rightarrow> string" where
  "js_value ts props =
     concat (map (\<lambda>t. case t of
                         Literal s \<Rightarrow> s
                       | Pkg_version \<Rightarrow>
                           (case map_of props ''version'' of
                              Some v \<Rightarrow> ToString v
                            | None \<Rightarrow> ''undefined'')) ts)"

text \<open>
  \<open>require('./package.json')\<close>: the value of the file, \<open>None\<close> when it throws. The text
  that \<open>JSON.stringify\<close> printed for a value is read back as that value.
\<close>

definition read_json :: "build_env \<Rightarrow> disk \<Rightarrow> path \<Rightarrow> json option" where
  "read_json e d p =
     (case map_of d p of
        Some (File (Bytes s) x) \<Rightarrow> JSON_parse e s
      | Some (File (Pretty j s) x) \<Rightarrow> if set s \<subseteq> set [CHR 0x20, CHR 0x09, CHR 0x0A, CHR 0x0D] then Some j else None
      | _ \<Rightarrow> None)"

text \<open>
  The statements of the script on the value \<open>pkg\<close>, in sloppy mode. On an object,
  \<open>pkg.version = V\<close> replaces the property where it stands or adds it at the end, and the
  \<open>for ... in\<close> loop assigns \<open>V\<close> to every property of \<open>pkg.optionalDependencies\<close> (to
  every element when that is an array; nothing is assigned on a primitive value). On
  \<open>null\<close> the first assignment throws. On an array or a primitive \<open>pkg\<close> the assignments
  change nothing that \<open>JSON.stringify\<close> prints. The text between the quotes is evaluated
  at each assignment: before \<open>pkg.version\<close> is set in line 163, after it in line 167.
\<close>

definition for_in_dependencies :: "string \<Rightarrow> (string \<times> json) list \<Rightarrow> (string \<times> json) list" where
  "for_in_dependencies V props =
     (case map_of props ''optionalDependencies'' of
        Some (JObj deps) \<Rightarrow>
          AList.update ''optionalDependencies''
            (JObj (map (\<lambda>(dep, old). (dep, JStr V)) deps)) props
      | Some (JArr deps) \<Rightarrow>
          AList.update ''optionalDependencies''
            (JArr (map (\<lambda>old. JStr V) deps)) props
      | _ \<Rightarrow> props)"

fun set_versions :: "js_term list \<Rightarrow> json \<Rightarrow> json option" where
  "set_versions ts JNull = None"
| "set_versions ts (JObj props) =
     (let props1 = AList.update ''version'' (JStr (js_value ts props)) props
      in Some (JObj (for_in_dependencies (js_value ts props1) props1)))"
| "set_versions ts pkg = Some pkg"

datatype update = Wrote disk | Node_failed | Other_script

definition root_manifest :: "build_env \<Rightarrow> path" where
  "root_manifest e = ROOT_DIR e @ [''package.json'']"

definition update_version :: "build_env \<Rightarrow> string \<Rightarrow> disk \<Rightarrow> update" where
  "update_version e VERSION d =
     (case js_terms (VERSION @ [CHR 0x27]) of
        None \<Rightarrow> Other_script
      | Some ts \<Rightarrow>
         (case read_json e d (root_manifest e) of
            None \<Rightarrow> Node_failed
          | Some pkg \<Rightarrow>
             (case set_versions ts pkg of
                None \<Rightarrow> Node_failed
              | Some pkg' \<Rightarrow>
                 (case write_file (root_manifest e) (Pretty pkg' nl) d of
                    None \<Rightarrow> Node_failed
                  | Some d' \<Rightarrow> Wrote d'))))"

subsection \<open>The whole script\<close>

text \<open>
  \<open>Usage\<close> is the exit with status 1 after the usage message, before anything is
  touched. \<open>Aborted\<close> is an exit under \<open>set -e\<close>, with the non-zero status of the command
  that failed. \<open>Finished\<close> is the end of the script, status 0. \<open>Other\<close> is a run whose
  version makes the text given to \<open>node -e\<close> another script than the one above.
\<close>

datatype outcome = Usage | Aborted build_state | Other build_state | Finished build_state

definition buildAll :: "build_env \<Rightarrow> string \<Rightarrow> disk \<Rightarrow> outcome" where
  "buildAll e VERSION d0 =
     (if VERSION = [] then Usage
      else (case mkdir_p (DIST_DIR e @ [''packages'']) (rm_rf (DIST_DIR e) d0) of
              None \<Rightarrow> Aborted \<lparr>disk = rm_rf (DIST_DIR e) d0, BUILT_PLATFORMS = []\<rparr>
            | Some d1 \<Rightarrow>
               (case for_platforms e VERSION (key_order e) \<lparr>disk = d1, BUILT_PLATFORMS = []\<rparr> of
                  Abort st \<Rightarrow> Aborted st
                | Next st \<Rightarrow>
                   (case update_version e VERSION (disk st) of
                      Other_script \<Rightarrow> Other st
                    | Node_failed \<Rightarrow> Aborted st
                    | Wrote d2 \<Rightarrow>
                       if is_dir d2 (DIST_DIR e @ [''packages''])
                       then Finished (st\<lparr>disk := d2\<rparr>)
                       else Aborted (st\<lparr>disk := d2\<rparr>)))))"

definition exit_status_0 :: "outcome \<Rightarrow> bool" where
  "exit_status_0 r = (case r of Finished st \<Rightarrow> True | _ \<Rightarrow> False)"


subsection \<open>Notions used in the properties of the builder\<close>

text \<open>
  \<open>same_outside R d d'\<close>: the disks \<open>d\<close> and \<open>d'\<close> hold the same at every path outside
  the region \<open>R\<close>. \<open>near r\<close> is the region of the directory \<open>r\<close>: what lies at or below
  it, and the directories above it. \<open>step_state\<close> is the state in which a pass of the loop
  body ends, however it ends.
\<close>

definition same_outside :: "(path \<Rightarrow> bool) \<Rightarrow> disk \<Rightarrow> disk \<Rightarrow> bool" where
  "same_outside R d d' = (\<forall>p. \<not> R p \<longrightarrow> map_of d' p = map_of d p)"

definition near :: "path \<Rightarrow> path \<Rightarrow> bool" where
  "near r p = (prefix r p \<or> prefix p r)"

definition step_state :: "build_state step \<Rightarrow> build_state" where
  "step_state r = (case r of Next st \<Rightarrow> st | Abort st \<Rightarrow> st)"

text \<open>
  Nothing of the platform with key \<open>P\<close> is on the disk or in the summary: no archive
  file, nothing at or below its package directory, and its name is not in
  \<open>BUILT_PLATFORMS\<close>.
\<close>

definition nothing_of :: "build_env \<Rightarrow> string \<Rightarrow> string \<Rightarrow> string \<Rightarrow> string \<Rightarrow> build_state \<Rightarrow> bool" where
  "nothing_of e VERSION P npm os st =
     (map_of (disk st) (archive_path e os VERSION P) = None
      \<and> (\<forall>q. prefix (pkg_dir e npm) q \<longrightarrow> map_of (disk st) q = None)
      \<and> npm \<notin> set (BUILT_PLATFORMS st))"

text \<open>
  A version with no quote, backslash or line break in it: bash and node hand it on as it
  is.
\<close>

definition plain :: "string \<Rightarrow> bool" where
  "plain s = (set s \<inter> set [CHR 0x27, CHR 0x5C, CHR 0x0A, CHR 0x0D] = {})"

text \<open>
  The disk after the version-update step on its own: the written disk, the disk as it was
  when node fails (nothing is written then), and \<open>None\<close> where the step is another
  script.
\<close>

definition after_update :: "build_env \<Rightarrow> string \<Rightarrow> disk \<Rightarrow> disk option" where
  "after_update e VERSION d =
     (case update_version e VERSION d of
        Wrote d' \<Rightarrow> Some d'
      | Node_failed \<Rightarrow> Some d
      | Other_script \<Rightarrow> None)"

text \<open>The property \<open>k\<close> of the root manifest on the disk, when that is an object.\<close>

definition manifest_property :: "build_env \<Rightarrow> disk \<Rightarrow> string \<Rightarrow> json option" where
  "manifest_property e d k =
     (case read_json e d (root_manifest e) of
        Some (JObj props) \<Rightarrow> map_of props k
      | _ \<Rightarrow> None)"

subsection \<open>Repositories and downloads used as examples\<close>

text \<open>
  A repository at \<open>/repo\<close> whose \<open>package.json\<close> parses to \<open>manifest_props\<close>; an archive
  with the binary two levels deep in a folder called \<open>release\<close>, and one with the binaries
  at its root; downloads that all succeed, that give an HTML page instead of one archive,
  that fail for the first platform and give an HTML page for the third, and that fail for
  all platforms but the first.
\<close>

definition manifest_props :: "(string \<times> json) list" where
  "manifest_props =
     [(''name'', JStr ''@anthropic-ai/crush-corp''),
      (''version'', JStr ''0.42.0''),
      (''bin'', JObj [(''crush'', JStr ''bin/crush.js'')]),
      (''optionalDependencies'', JObj
         [(''@anthropic-ai/crush-corp-linux-x64'', JStr ''0.42.0''),
          (''@anthropic-ai/crush-corp-win32-x64'', JStr ''0.42.0'')])]"

definition clean_repo :: disk where
  "clean_repo =
     [([''repo''], Dir),
      ([''repo'', ''package.json''], File (Bytes ''manifest'') False)]"

definition nested_tarball :: "member list" where
  "nested_tarball =
     [([''release'', ''linux'', ''crush''], True, ''ELF''),
      ([''release'', ''README.md''], False, ''notes'')]"

definition nested_zip :: "member list" where
  "nested_zip =
     [([''release'', ''windows'', ''crush.exe''], False, ''MZ''),
      ([''release'', ''README.md''], False, ''notes'')]"

definition flat_archive :: "member list" where
  "flat_archive = [([''crush''], True, ''ELF''), ([''crush.exe''], False, ''MZ'')]"

definition demo_env :: "(string \<Rightarrow> fetch) \<Rightarrow> build_env" where
  "demo_env c = \<lparr> ROOT_DIR = [''repo''], key_order = map fst PLATFORMS, curl = c,
     JSON_parse = (\<lambda>s. if s = ''manifest'' then Some (JObj manifest_props) else None) \<rparr>"

definition started :: build_state where
  "started =
     \<lparr> disk = [([''repo'', ''dist'', ''packages''], Dir), ([''repo'', ''dist''], Dir)] @ clean_repo,
       BUILT_PLATFORMS = [] \<rparr>"

definition all_fetched :: "string \<Rightarrow> fetch" where
  "all_fetched url = Fetched (Packed flat_archive)"

definition one_unreadable :: "string \<Rightarrow> fetch" where
  "one_unreadable url =
     (if url = download_url ''0.43.0'' ''crush_0.43.0_Linux_arm64.tar.gz''
      then Fetched (Bytes ''<html>blocked</html>'') else Fetched (Packed flat_archive))"


definition only_first :: "string \<Rightarrow> fetch" where
  "only_first url =
     (if url = download_url ''1.2.3'' ''crush_1.2.3_Linux_x86_64.tar.gz''
      then Fetched (Packed flat_archive) else Failed (Some (Bytes ''partial'')))"


section \<open>Properties of the setup wizard's quick subcommand\<close>

text \<open>
  The files change only when the endpoint is present and the provider type is an own
  property of the template table.
\<close>

lemma quickSetup_no_write:
  assumes "falsy (arg args 1)
         \<or> (\<forall>t. PROVIDER_TEMPLATES (or_default (arg args 0) ''azure-foundry'') \<noteq> Own t)"
  shows "snd (quickSetup e args fs) = fs"
  using assms by (auto simp: quickSetup_def Let_def split: looked_up.splits)

text \<open>
  C10: \<open>quickSetup\<close> is to leave with a non-zero status, before any write, whenever the
  provider type is unknown. For the provider type \<open>constructor\<close>, with an endpoint, the
  lookup in the template table finds the member inherited from \<open>Object.prototype\<close>, the
  guard \<open>if (!template)\<close> lets it pass, \<open>template.config(...)\<close> throws, and the process
  ends with status 0; no file is written.
\<close>

theorem quick_inherited_provider_exits_zero:
  "main_quick e [''constructor'', ''https://example.test/''] fs = (0, fs)"
  by (simp add: main_quick_def quickSetup_def arg_def or_default_def falsy_def
      PROVIDER_TEMPLATES_def Object_prototype_keys_def)

section \<open>Properties of the launcher\<close>

lemma binary_neq_disguised: "getBinaryName e \<noteq> disguisedName"
  by (simp add: getBinaryName_def disguisedName_def)














text \<open>
  C8, as stated, fails on Windows: when only the disguised file exists and the rename is
  refused, the \<open>catch\<close> block does nothing on \<open>win32\<close>, and \<open>findBinary\<close> returns
  \<open>null\<close> rather than the disguised path.
\<close>

theorem disguised_not_returned_on_windows:
  "\<not> existsSync (disguised_only ''win32'') (disguised_dir ''win32'' @ [getBinaryName (readonly_env ''win32'')])
   \<and> existsSync (disguised_only ''win32'') (disguised_dir ''win32'' @ [disguisedName])
   \<and> disguised_dir ''win32'' \<in> set (baseDirs (readonly_env ''win32''))
   \<and> renameSync (readonly_env ''win32'') (disguised_dir ''win32'' @ [disguisedName])
        (disguised_dir ''win32'' @ [getBinaryName (readonly_env ''win32'')]) (disguised_only ''win32'') = None
   \<and> findBinary (readonly_env ''win32'') (disguised_only ''win32'') = (None, disguised_only ''win32'')"
  by (simp add: findBinary_def baseDirs_def resolved_def probe_def Let_def existsSync_def
      renameSync_def chmodSync_def getBinaryName_def disguisedName_def getPlatformPackage_def
      readonly_env_def disguised_dir_def disguised_only_def)

text \<open>
  C8, amended: in a candidate directory that holds only the disguised file, if the rename
  succeeds (and, off Windows, the chmod of the renamed file succeeds) the properly named
  path is returned, the file is there, executable off Windows, and the disguised file is
  gone; if the rename is refused, then off Windows the disguised file is made executable
  and its path is returned when that chmod succeeds, and on Windows, or when that chmod is
  refused too, the directory yields nothing, no file changes and the search goes on with
  the next directory.
\<close>

theorem disguised_upgrade:
  assumes "fs (d @ [getBinaryName e]) = None"
    and "fs (d @ [disguisedName]) = Some (File c x)"
  shows "(\<not> rename_refused e (d @ [disguisedName])
          \<and> (platform e = ''win32'' \<or> \<not> chmod_refused e (d @ [getBinaryName e])) \<longrightarrow>
            probe e d fs =
              (Some (d @ [getBinaryName e]),
               fs(d @ [disguisedName] := None,
                  d @ [getBinaryName e] \<mapsto> File c (platform e \<noteq> ''win32'' \<or> x)))
          \<and> findBinary_in e (d # ds) fs =
              (Some (d @ [getBinaryName e]),
               fs(d @ [disguisedName] := None,
                  d @ [getBinaryName e] \<mapsto> File c (platform e \<noteq> ''win32'' \<or> x))))
       \<and> (rename_refused e (d @ [disguisedName]) \<and> platform e \<noteq> ''win32''
          \<and> \<not> chmod_refused e (d @ [disguisedName]) \<longrightarrow>
            findBinary_in e (d # ds) fs =
              (Some (d @ [disguisedName]), fs(d @ [disguisedName] \<mapsto> File c True)))
       \<and> (rename_refused e (d @ [disguisedName])
          \<and> (platform e = ''win32'' \<or> chmod_refused e (d @ [disguisedName])) \<longrightarrow>
            findBinary_in e (d # ds) fs = findBinary_in e ds fs)"
proof -
  have ne: "d @ [getBinaryName e] \<noteq> d @ [disguisedName]"
    using binary_neq_disguised [of e] by simp
  have ex: "\<not> existsSync fs (d @ [getBinaryName e])" "existsSync fs (d @ [disguisedName])"
    using assms by (simp_all add: existsSync_def)
  have A: "probe e d fs = (Some (d @ [getBinaryName e]),
               fs(d @ [disguisedName] := None,
                  d @ [getBinaryName e] \<mapsto> File c (platform e \<noteq> ''win32'' \<or> x)))"
    if "\<not> rename_refused e (d @ [disguisedName])"
      and "platform e = ''win32'' \<or> \<not> chmod_refused e (d @ [getBinaryName e])"
    using that assms ex ne
    by (auto simp: probe_def Let_def renameSync_def chmodSync_def)
  have B: "probe e d fs = (Some (d @ [disguisedName]), fs(d @ [disguisedName] \<mapsto> File c True))"
    if "rename_refused e (d @ [disguisedName])" "platform e \<noteq> ''win32''"
      "\<not> chmod_refused e (d @ [disguisedName])"
    using that assms ex by (simp add: probe_def Let_def renameSync_def chmodSync_def)
  have C: "probe e d fs = (None, fs)"
    if "rename_refused e (d @ [disguisedName])"
      "platform e = ''win32'' \<or> chmod_refused e (d @ [disguisedName])"
    using that assms ex by (auto simp: probe_def Let_def renameSync_def chmodSync_def)
  show ?thesis using A B C by auto
qed

theorem disguised_upgrade_witness:
  "disguised_only ''linux'' (disguised_dir ''linux'' @ [getBinaryName ex_env]) = None
   \<and> disguised_only ''linux'' (disguised_dir ''linux'' @ [disguisedName]) = Some (File (Bytes ''data'') False)
   \<and> fst (findBinary_in ex_env [disguised_dir ''linux''] (disguised_only ''linux''))
       = Some (disguised_dir ''linux'' @ [''crush''])
   \<and> executable (snd (findBinary_in ex_env [disguised_dir ''linux''] (disguised_only ''linux'')))
        (disguised_dir ''linux'' @ [''crush''])
   \<and> \<not> existsSync (snd (findBinary_in ex_env [disguised_dir ''linux''] (disguised_only ''linux'')))
        (disguised_dir ''linux'' @ [''crush.bin''])
   \<and> fst (findBinary_in (readonly_env ''linux'') [disguised_dir ''linux''] (disguised_only ''linux''))
       = Some (disguised_dir ''linux'' @ [''crush.bin''])
   \<and> executable (snd (findBinary_in (readonly_env ''linux'') [disguised_dir ''linux''] (disguised_only ''linux'')))
        (disguised_dir ''linux'' @ [''crush.bin''])
   \<and> findBinary_in (readonly_env ''win32'') [disguised_dir ''win32''] (disguised_only ''win32'')
       = (None, disguised_only ''win32'')"
proof -
  let ?lin = "disguised_only ''linux''" and ?win = "disguised_only ''win32''"
  let ?dl = "disguised_dir ''linux''" and ?dw = "disguised_dir ''win32''"
  have b: "getBinaryName ex_env = ''crush''" "getBinaryName (readonly_env ''linux'') = ''crush''"
    "getBinaryName (readonly_env ''win32'') = ''crush.exe''"
    by (simp_all add: getBinaryName_def ex_env_def readonly_env_def)
  have n: "disguised_only pf (disguised_dir pf @ [''crush'']) = None"
    "disguised_only pf (disguised_dir pf @ [''crush.exe'']) = None" for pf
    by (simp_all add: disguised_only_def)
  have d: "disguised_only pf (disguised_dir pf @ [disguisedName]) = Some (File (Bytes ''data'') False)" for pf
    by (simp add: disguised_only_def disguisedName_def)
  have p: "platform ex_env = ''linux''" "platform (readonly_env pf) = pf"
    "\<not> rename_refused ex_env q" "\<not> chmod_refused ex_env q"
    "rename_refused (readonly_env pf) q" "\<not> chmod_refused (readonly_env pf) q" for pf q
    by (simp_all add: ex_env_def readonly_env_def)
  have h1: "?lin (?dl @ [getBinaryName ex_env]) = None"
    and h2: "?lin (?dl @ [getBinaryName (readonly_env ''linux'')]) = None"
    and h3: "?win (?dw @ [getBinaryName (readonly_env ''win32'')]) = None"
    by (simp_all add: b n)
  have r1: "findBinary_in ex_env [?dl] ?lin =
      (Some (?dl @ [''crush'']), ?lin(?dl @ [disguisedName] := None, ?dl @ [''crush''] \<mapsto> File (Bytes ''data'') True))"
    using disguised_upgrade [OF h1 d, of "[]"] by (simp add: p b del: findBinary_in.simps)
  have r2: "findBinary_in (readonly_env ''linux'') [?dl] ?lin =
      (Some (?dl @ [disguisedName]), ?lin(?dl @ [disguisedName] \<mapsto> File (Bytes ''data'') True))"
    using disguised_upgrade [OF h2 d, of "[]"] by (simp add: p del: findBinary_in.simps)
  have r3: "findBinary_in (readonly_env ''win32'') [?dw] ?win = (None, ?win)"
    using disguised_upgrade [OF h3 d, of "[]"] by (simp add: p)
  show ?thesis
    using h1 d [of "''linux''"]
    by (simp add: r1 r2 r3 executable_def existsSync_def disguisedName_def del: findBinary_in.simps)
qed

text \<open>
  What holds of the child's lifecycle: a spawn error ends the launcher with status 1 after
  the message; the child's exit without a signal ends it with the child's code, 1 when the
  code is \<open>null\<close>; a forwarded signal reaches the running child once, a later one is not
  sent on, because \<open>child.kill\<close> has set \<open>child.killed\<close>.
\<close>

lemma child_error_and_exit_code:
  "launcher_run os c (ChildError m # evs)
     = ([ConsoleError (''Failed to execute Crush: '' @ m), ProcessExit 1], Some (Exit_status 1))"
  "launcher_run os c (ChildExit (Some n) None # evs) = ([ProcessExit n], Some (Exit_status n))"
  "launcher_run os c (ChildExit None None # evs) = ([ProcessExit 1], Some (Exit_status 1))"
  by (simp_all add: falsy_def)

lemma only_first_signal_forwarded:
  "launcher_run os \<lparr>running = True, killed = False\<rparr> [Received ''SIGINT'', Received ''SIGTERM'']
     = ([ChildKill ''SIGINT''], None)"
  by (simp add: deliver_def listener_def forwarded_def child_kill_def)

text \<open>
  C9: when the child is ended by a signal, the launcher is to end by that same signal and
  not with an exit status. The \<open>exit\<close> handler sends the signal to its own process, but
  for an interrupt, terminate or hangup signal the launcher's own listener takes it: the
  listener sends nothing (the child is gone, or \<open>child.killed\<close> is set), the default
  action is left out, and the launcher exits with status 0. So it is after an interrupt
  that was forwarded to the child, and after a terminate signal sent to the child alone.
  Only a signal without a listener, as \<open>SIGKILL\<close>, ends the launcher as it ended the
  child.
\<close>

theorem resent_signal_meets_own_listener:
  "launcher_run (\<lambda>signal. True) \<lparr>running = True, killed = False\<rparr>
       [Received ''SIGINT'', ChildExit None (Some ''SIGINT'')]
     = ([ChildKill ''SIGINT'', ProcessKill ''SIGINT''], Some (Exit_status 0))
   \<and> launcher_run (\<lambda>signal. True) \<lparr>running = True, killed = False\<rparr>
       [ChildExit None (Some ''SIGTERM'')]
     = ([ProcessKill ''SIGTERM''], Some (Exit_status 0))
   \<and> launcher_run (\<lambda>signal. True) \<lparr>running = True, killed = False\<rparr>
       [ChildExit None (Some ''SIGKILL'')]
     = ([ProcessKill ''SIGKILL''], Some (Ended_by ''SIGKILL''))"
  by (simp add: falsy_def deliver_def listener_def forwarded_def child_kill_def)




section \<open>Properties of the package builder\<close>

text \<open>
  The evaluations of whole runs below keep the texts of the generated \<open>package.json\<close> and
  \<open>README.md\<close> folded; no property here depends on them.
\<close>

declare README_def [code del] package_json_def [code del]

subsection \<open>What each command leaves alone\<close>


lemma same_outside_refl: "same_outside R d d"
  by (simp add: same_outside_def)

lemma same_outside_trans:
  "same_outside R d d' \<Longrightarrow> same_outside R d' d'' \<Longrightarrow> same_outside R d d''"
  by (simp add: same_outside_def)

lemma same_outside_mono:
  "same_outside R d d' \<Longrightarrow> (\<And>p. R p \<Longrightarrow> R' p) \<Longrightarrow> same_outside R' d d'"
  by (auto simp: same_outside_def)

lemma map_of_filter_fst:
  "map_of (filter (\<lambda>e. Q (fst e)) d) p = (if Q p then map_of d p else None)"
  by (induction d) auto

lemma map_of_rm_rf: "map_of (rm_rf r d) p = (if prefix r p then None else map_of d p)"
  unfolding rm_rf_def using map_of_filter_fst [of "\<lambda>q. \<not> prefix r q" d p] by simp

lemma map_of_put: "map_of (put q n d) p = (if p = q then Some n else map_of d p)"
  unfolding put_def using map_of_filter_fst [of "\<lambda>p. p \<noteq> q" d p] by simp

lemma map_of_missing_dirs:
  "map_of (missing_dirs t d @ d) p =
     (if prefix p t \<and> p \<noteq> [] \<and> map_of d p = None then Some Dir else map_of d p)"
proof -
  have "map_of (map (\<lambda>q. (q, Dir)) qs) p = (if p \<in> set qs then Some Dir else None)" for qs :: "path list"
    by (induction qs) auto
  then show ?thesis
    by (auto simp: missing_dirs_def map_add_def in_set_prefixes split: option.splits)
qed

lemma same_outside_rm_rf: "same_outside (prefix r) d (rm_rf r d)"
  by (simp add: same_outside_def map_of_rm_rf)

lemma same_outside_put: "same_outside (\<lambda>p. p = q) d (put q n d)"
  by (simp add: same_outside_def map_of_put)

lemma same_outside_missing_dirs: "same_outside (\<lambda>p. prefix p t) d (missing_dirs t d @ d)"
  by (simp add: same_outside_def map_of_missing_dirs del: map_of_append)

lemma same_outside_mkdir_p:
  "mkdir_p t d = Some d' \<Longrightarrow> same_outside (\<lambda>p. prefix p t) d d'"
  by (auto simp: mkdir_p_def same_outside_missing_dirs split: if_splits)

lemma same_outside_write_file:
  "write_file q c d = Some d' \<Longrightarrow> same_outside (\<lambda>p. p = q) d d'"
  by (auto simp: write_file_def same_outside_put split: if_splits)

lemma map_of_chmod_x:
  "map_of (chmod_x q d) p =
     (if p = q then map_option (\<lambda>n. case n of Dir \<Rightarrow> Dir | File c x \<Rightarrow> File c True) (map_of d p)
      else map_of d p)"
  by (induction d) (auto simp: chmod_x_def)

lemma same_outside_chmod_x: "same_outside (\<lambda>p. p = q) d (chmod_x q d)"
  by (simp add: same_outside_def map_of_chmod_x)

lemma same_outside_rm_f:
  "rm_f q d = Some d' \<Longrightarrow> same_outside (\<lambda>p. p = q) d d'"
  using map_of_filter_fst [of "\<lambda>p. p \<noteq> q" d]
  by (auto simp: rm_f_def same_outside_def split: if_splits)

lemma same_outside_unpack:
  "same_outside (\<lambda>p. \<exists>m \<in> set ms. prefix p (fst m)) d (unpack ms d)"
proof (induction ms arbitrary: d)
  case Nil
  show ?case by (simp add: same_outside_refl)
next
  case (Cons m ms)
  obtain t x bytes where m: "m = (t, x, bytes)" by (cases m)
  let ?d1 = "put t (File (Bytes bytes) x) (missing_dirs (butlast t) d @ d)"
  have "same_outside (\<lambda>p. prefix p t) d ?d1"
    by (auto simp: same_outside_def map_of_put map_of_missing_dirs simp del: map_of_append
        dest: prefix_order.trans [OF _ prefixeq_butlast])
  then have 1: "same_outside (\<lambda>p. \<exists>m \<in> set (m # ms). prefix p (fst m)) d ?d1"
    by (rule same_outside_mono) (simp add: m)
  have 2: "same_outside (\<lambda>p. \<exists>m \<in> set (m # ms). prefix p (fst m)) ?d1 (unpack ms ?d1)"
    by (rule same_outside_mono [OF Cons.IH]) auto
  show ?case
    using same_outside_trans [OF 1 2] by (simp add: m)
qed


lemma near_below: "prefix r t \<Longrightarrow> prefix p t \<Longrightarrow> near r p"
  unfolding near_def using prefix_same_cases by blast

lemma near_under: "prefix r p \<Longrightarrow> near r p"
  by (simp add: near_def)

lemma same_outside_unpack_under:
  assumes "\<And>m. m \<in> set ms \<Longrightarrow> prefix r (fst m)"
  shows "same_outside (near r) d (unpack ms d)"
  by (rule same_outside_mono [OF same_outside_unpack]) (auto intro: near_below assms)

lemma retarget_under:
  "m \<in> set (retarget (\<lambda>p. dest @ p) ms) \<Longrightarrow> prefix r dest \<Longrightarrow> prefix r (fst m)"
  "m \<in> set (retarget (\<lambda>p. dest @ tl p) ms) \<Longrightarrow> prefix r dest \<Longrightarrow> prefix r (fst m)"
  by (auto simp: retarget_def intro: prefix_order.trans)

lemma frame_tar_strip_wild:
  "prefix r dest \<Longrightarrow> same_outside (near r) d (snd (tar_strip_wild ms b dest d))"
  by (auto simp: tar_strip_wild_def Let_def same_outside_refl
      intro!: same_outside_unpack_under retarget_under(2))

lemma frame_tar_named:
  "prefix r dest \<Longrightarrow> same_outside (near r) d (snd (tar_named ms b dest d))"
  by (auto simp: tar_named_def Let_def same_outside_refl
      intro!: same_outside_unpack_under retarget_under(1))

lemma frame_unzip_all:
  "prefix r dest \<Longrightarrow> same_outside (near r) d (snd (unzip_all ms dest d))"
  by (auto simp: unzip_all_def same_outside_refl
      intro!: same_outside_unpack_under retarget_under(1))

lemma frame_unzip_junk:
  assumes "prefix r dest"
  shows "same_outside (near r) d (snd (unzip_junk sel ms dest d))"
proof (cases "filter (\<lambda>m. sel (fst m)) ms")
  case Nil
  then show ?thesis by (simp add: unzip_junk_def same_outside_refl)
next
  case (Cons m others)
  obtain p x bytes where m: "m = (p, x, bytes)" by (cases m)
  have "same_outside (near r) d (unpack [(dest @ [last p], x, bytes)] d)"
    by (rule same_outside_unpack_under) (use assms in \<open>auto intro: prefix_order.trans\<close>)
  then show ?thesis using Cons m by (simp add: unzip_junk_def)
qed

lemma map_of_rename:
  assumes "\<not> prefix src p" and "\<not> prefix tgt p"
  shows "map_of (map (\<lambda>(q, n). if prefix src q then (tgt @ drop (length src) q, n) else (q, n)) d) p
         = map_of d p"
  using assms by (induction d) auto

lemma frame_mv_into:
  assumes "prefix r src" and "prefix r dir"
  shows "same_outside (prefix r) (snd acc) (snd (mv_into dir src acc))"
proof -
  define tgt where "tgt = dir @ [last src]"
  have tgt: "prefix r tgt"
    using assms(2) by (auto simp: tgt_def intro: prefix_order.trans)
  have out: "\<not> prefix src p \<and> \<not> prefix tgt p \<and> p \<noteq> src \<and> p \<noteq> tgt" if "\<not> prefix r p" for p
    using that assms(1) tgt prefix_order.trans by blast
  have copied: "same_outside (prefix r) (snd acc) (put tgt n (filter (\<lambda>e. fst e \<noteq> src) (snd acc)))" for n
    using out map_of_filter_fst [of "\<lambda>p. p \<noteq> src" "snd acc"]
    by (simp add: same_outside_def map_of_put)
  have moved: "same_outside (prefix r) (snd acc)
      (map (\<lambda>(q, n). if prefix src q then (tgt @ drop (length src) q, n) else (q, n)) (snd acc))"
    using out by (simp add: same_outside_def map_of_rename)
  show ?thesis
  proof (cases "map_of (snd acc) src")
    case None
    then show ?thesis by (simp add: mv_into_def same_outside_refl)
  next
    case (Some n)
    then show ?thesis
      using copied [unfolded tgt_def] moved [unfolded tgt_def]
      by (cases n) (simp_all add: mv_into_def Let_def same_outside_refl)
  qed
qed

lemma frame_fold_mv_into:
  assumes "\<And>src. src \<in> set srcs \<Longrightarrow> prefix r src" and "prefix r dir"
  shows "same_outside (prefix r) (snd acc) (snd (fold (mv_into dir) srcs acc))"
  using assms(1)
proof (induction srcs arbitrary: acc)
  case Nil
  show ?case by (simp add: same_outside_refl)
next
  case (Cons s srcs)
  have 1: "same_outside (prefix r) (snd acc) (snd (mv_into dir s acc))"
    by (rule frame_mv_into) (simp_all add: Cons.prems assms(2))
  have 2: "same_outside (prefix r) (snd (mv_into dir s acc))
        (snd (fold (mv_into dir) srcs (mv_into dir s acc)))"
    by (rule Cons.IH) (simp add: Cons.prems)
  show ?case using same_outside_trans [OF 1 2] by simp
qed

lemma frame_find_name_mv:
  assumes "prefix r start" and "prefix r dir"
  shows "same_outside (prefix r) d (snd (find_name_mv start b dir d))"
proof (cases "is_dir d start")
  case True
  have "same_outside (prefix r) (snd (True, d))
     (snd (fold (mv_into dir)
        (map fst (filter (\<lambda>e. prefix start (fst e) \<and> fst e \<noteq> [] \<and> last (fst e) = b) d)) (True, d)))"
    by (rule frame_fold_mv_into) (use assms in \<open>auto intro: prefix_order.trans\<close>)
  then show ?thesis using True by (simp add: find_name_mv_def)
next
  case False
  then show ?thesis by (simp add: find_name_mv_def same_outside_refl)
qed

lemma frame_fold_rm_rf:
  assumes "\<And>v. v \<in> set vs \<Longrightarrow> prefix r v"
  shows "same_outside (prefix r) d (fold rm_rf vs d)"
  using assms
proof (induction vs arbitrary: d)
  case Nil
  show ?case by (simp add: same_outside_refl)
next
  case (Cons v vs)
  have 1: "same_outside (prefix r) d (rm_rf v d)"
    by (rule same_outside_mono [OF same_outside_rm_rf])
       (use Cons.prems in \<open>auto intro: prefix_order.trans\<close>)
  have 2: "same_outside (prefix r) (rm_rf v d) (fold rm_rf vs (rm_rf v d))"
    by (rule Cons.IH) (simp add: Cons.prems)
  show ?case using same_outside_trans [OF 1 2] by simp
qed

lemma frame_find_rm_crush_dirs:
  assumes "prefix r start"
  shows "same_outside (prefix r) d (snd (find_rm_crush_dirs start d))"
proof (cases "is_dir d start")
  case True
  have "same_outside (prefix r) d (fold rm_rf
             (map fst (filter (\<lambda>e. snd e = Dir \<and> prefix start (fst e)
                                  \<and> length (fst e) \<le> length start + 1 \<and> fst e \<noteq> []
                                  \<and> prefix ''crush_'' (last (fst e))) d)) d)"
    by (rule frame_fold_rm_rf) (use assms in \<open>auto intro: prefix_order.trans\<close>)
  then show ?thesis using True by (simp add: find_rm_crush_dirs_def)
next
  case False
  then show ?thesis by (simp add: find_rm_crush_dirs_def same_outside_refl)
qed

lemma near_mono: "same_outside (prefix r') d d' \<Longrightarrow> prefix r r' \<Longrightarrow> same_outside (near r) d d'"
  by (erule same_outside_mono) (auto simp: near_def intro: prefix_order.trans)

lemma frame_or_else:
  assumes "same_outside R d (snd r)" and "\<And>d1. same_outside R d1 (snd (f d1))"
  shows "same_outside R d (snd (or_else r f))"
  using assms same_outside_trans [OF assms(1) assms(2) [of "snd r"]]
  by (simp add: or_else_def)

lemma frame_and_then:
  assumes "same_outside R d (snd r)" and "\<And>d1. same_outside R d1 (snd (f d1))"
  shows "same_outside R d (snd (and_then r f))"
  using assms same_outside_trans [OF assms(1) assms(2) [of "snd r"]]
  by (simp add: and_then_def)

lemma frame_tar_all:
  "prefix r dest \<Longrightarrow> same_outside (near r) d (snd (tar_all ms dest d))"
  by (auto simp: tar_all_def intro!: same_outside_unpack_under retarget_under(1))

lemma frame_extract_binary:
  "same_outside (near pkg) d (snd (extract_binary os a b pkg d))"
proof (cases "archive_members d a")
  case None
  then show ?thesis by (simp add: extract_binary_def same_outside_refl)
next
  case (Some ms)
  have bin: "prefix pkg (pkg @ [''bin''])" and temp: "prefix pkg (pkg @ [''temp''])"
    by simp_all
  have mv1: "same_outside (near pkg) d3 (snd (find_name_mv (pkg @ [''temp'']) b (pkg @ [''bin'']) d3))"
    and mv2: "same_outside (near pkg) d3 (snd (find_name_mv pkg b (pkg @ [''bin'']) d3))"
    and rm1: "same_outside (near pkg) d3 (snd (True, rm_rf (pkg @ [''temp'']) d3))"
    and rm2: "same_outside (near pkg) d3 (snd (find_rm_crush_dirs pkg d3))" for d3
    using near_mono [OF frame_find_name_mv [OF temp bin], of pkg d3 b]
      near_mono [OF frame_find_name_mv [of pkg pkg "pkg @ [''bin'']"], of pkg d3 b]
      near_mono [OF same_outside_rm_rf temp, of d3]
      near_mono [OF frame_find_rm_crush_dirs [of pkg pkg], of pkg d3]
    by simp_all
  show ?thesis
  proof (cases "os = ''win32''")
    case True
    have "same_outside (near pkg) d (snd
       (or_else (unzip_junk (\<lambda>p. 2 \<le> length p \<and> last p = b) ms (pkg @ [''bin'']) d) (\<lambda>d1.
        or_else (unzip_junk (\<lambda>p. p = [b]) ms (pkg @ [''bin'']) d1) (\<lambda>d2.
          and_then (unzip_all ms (pkg @ [''temp'']) d2) (\<lambda>d3.
          and_then (find_name_mv (pkg @ [''temp'']) b (pkg @ [''bin'']) d3) (\<lambda>d4.
            (True, rm_rf (pkg @ [''temp'']) d4)))))))"
      by (intro frame_or_else frame_and_then frame_unzip_junk frame_unzip_all bin temp mv1 rm1)
    then show ?thesis using Some True by (simp add: extract_binary_def)
  next
    case False
    have "same_outside (near pkg) d (snd
       (or_else (tar_strip_wild ms b (pkg @ [''bin'']) d) (\<lambda>d1.
        or_else (tar_named ms b (pkg @ [''bin'']) d1) (\<lambda>d2.
          and_then (tar_all ms pkg d2) (\<lambda>d3.
          and_then (find_name_mv pkg b (pkg @ [''bin'']) d3) (\<lambda>d4.
            find_rm_crush_dirs pkg d4))))))"
      by (intro frame_or_else frame_and_then frame_tar_strip_wild frame_tar_named frame_tar_all
          bin mv2 rm2 prefix_order.refl)
    then show ?thesis using Some False by (simp add: extract_binary_def)
  qed
qed



lemma frame_make_package:
  "same_outside (near (pkg_dir e npm)) (disk st)
     (disk (step_state (make_package e VERSION k npm os cpu st)))"
proof -
  let ?dir = "pkg_dir e npm" and ?b = "binary_name os"
  show ?thesis
  proof (cases "mkdir_p (?dir @ [''bin'']) (disk st)")
    case None
    then show ?thesis by (simp add: make_package_def step_state_def same_outside_refl)
  next
    case (Some d1)
    obtain ok d2 where ex: "extract_binary os (archive_path e os VERSION k) ?b ?dir d1 = (ok, d2)"
      by (cases "extract_binary os (archive_path e os VERSION k) ?b ?dir d1")
    define d3 where "d3 = chmod_x (?dir @ [''bin'', ?b]) d2"
    have f1: "same_outside (near ?dir) (disk st) d1"
      by (rule same_outside_mono [OF same_outside_mkdir_p [OF Some]])
         (auto intro: near_below [of _ "?dir @ [''bin'']"])
    have f2: "same_outside (near ?dir) (disk st) d2"
      using frame_extract_binary [of ?dir d1 os _ ?b] ex f1 same_outside_trans by (metis snd_conv)
    have f3: "same_outside (near ?dir) (disk st) d3"
      unfolding d3_def
      by (rule same_outside_trans [OF f2]) (rule same_outside_mono [OF same_outside_chmod_x], simp add: near_def)
    have f4: "same_outside (near ?dir) (disk st) (rm_rf ?dir d3)"
      by (rule same_outside_trans [OF f3]) (rule near_mono [OF same_outside_rm_rf], simp)
    have w: "same_outside (near ?dir) (disk st) d'"
      if "same_outside (near ?dir) (disk st) d0" and "write_file (?dir @ [n]) c d0 = Some d'" for d0 d' n c
      by (rule same_outside_trans [OF that(1)])
         (rule same_outside_mono [OF same_outside_write_file [OF that(2)]], simp add: near_def)
    show ?thesis
    proof (cases ok)
      case False
      then show ?thesis using Some ex f2 by (simp add: make_package_def step_state_def)
    next
      case True
      note ok = this
      show ?thesis
      proof (cases "is_file d3 (?dir @ [''bin'', ?b])")
        case False
        then show ?thesis
          using Some ex ok f4 by (simp add: make_package_def step_state_def Let_def d3_def)
      next
        case True
        note present = this
        let ?c = "Bytes (package_json VERSION npm os cpu)"
        show ?thesis
        proof (cases "write_file (?dir @ [''package.json'']) ?c d3")
          case None
          then show ?thesis
            using Some ex ok present f3
            by (simp add: make_package_def step_state_def Let_def d3_def)
        next
          case (Some d4)
          note w4 = this
          have f4': "same_outside (near ?dir) (disk st) d4"
            by (rule w [OF f3 w4])
          show ?thesis
          proof (cases "write_file (?dir @ [''README.md'']) (Bytes (README npm)) d4")
            case None
            then show ?thesis
              using \<open>mkdir_p (?dir @ [''bin'']) (disk st) = Some d1\<close> ex ok present w4 f4'
              by (simp add: make_package_def step_state_def Let_def d3_def)
          next
            case (Some d5)
            have "same_outside (near ?dir) (disk st) d5"
              by (rule w [OF f4' Some])
            then show ?thesis
              using \<open>mkdir_p (?dir @ [''bin'']) (disk st) = Some d1\<close> ex ok present w4 Some
              by (simp add: make_package_def step_state_def Let_def d3_def)
          qed
        qed
      qed
    qed
  qed
qed

lemma filter_absent: "map_of d p = None \<Longrightarrow> filter (\<lambda>e. fst e \<noteq> p) d = d"
  by (induction d) (auto split: if_splits)

lemma buildOne_failed_download:
  assumes "map_of PLATFORMS P = Some npm" and "map_of OS_MAP npm = Some os"
    and "curl e (download_url VERSION (archive_name os VERSION P)) = Failed partial"
    and "map_of (disk st) (archive_path e os VERSION P) = None"
  shows "buildOne e VERSION P st = Next st"
proof -
  let ?a = "archive_path e os VERSION P"
  obtain cpu where cpu: "map_of CPU_MAP npm = Some cpu"
    using assms(1) by (auto simp: PLATFORMS_def CPU_MAP_def split: if_splits)
  have nf: "\<not> is_file (disk st) ?a"
    using assms(4) by (simp add: is_file_def)
  have put: "rm_f ?a (put ?a (File c x) (disk st)) = Some (disk st)" for c x
    using assms(4) by (simp add: rm_f_def put_def filter_absent)
  have keep: "rm_f ?a (disk st) = Some (disk st)"
    using assms(4) by (simp add: rm_f_def filter_absent)
  have "\<exists>d1. curl_o e ?a (download_url VERSION (archive_name os VERSION P)) (disk st) = (False, d1)
      \<and> rm_f ?a d1 = Some (disk st)"
    using assms(3) put keep
    by (cases partial) (auto simp: curl_o_def write_file_def split: option.splits)
  then show ?thesis
    using assms(1,2) cpu nf by (auto simp: buildOne_def Let_def)
qed

lemma frame_buildOne:
  assumes "map_of PLATFORMS k = Some npm" and "map_of OS_MAP npm = Some os"
  shows "same_outside (\<lambda>p. near (pkg_dir e npm) p \<or> p = archive_path e os VERSION k) (disk st)
           (disk (step_state (buildOne e VERSION k st)))"
    (is "same_outside ?R _ _")
proof -
  let ?a = "archive_path e os VERSION k"
  obtain cpu where cpu: "map_of CPU_MAP npm = Some cpu"
    using assms(1) by (auto simp: PLATFORMS_def CPU_MAP_def split: if_splits)
  have pk: "same_outside ?R (disk st') (disk (step_state (make_package e VERSION k npm os cpu st')))" for st'
    by (rule same_outside_mono [OF frame_make_package]) simp
  obtain ok d1 where c: "curl_o e ?a (download_url VERSION (archive_name os VERSION k)) (disk st) = (ok, d1)"
    by (cases "curl_o e ?a (download_url VERSION (archive_name os VERSION k)) (disk st)")
  have f1: "same_outside ?R (disk st) d1"
  proof -
    have "same_outside (\<lambda>p. p = ?a) (disk st) d1"
      using c same_outside_write_file [of ?a _ "disk st"]
      by (auto simp: curl_o_def same_outside_refl split: fetch.splits option.splits)
    then show ?thesis by (rule same_outside_mono) simp
  qed
  have f2: "same_outside ?R (disk st) d2" if "rm_f ?a d1 = Some d2" for d2
    by (rule same_outside_trans [OF f1])
       (rule same_outside_mono [OF same_outside_rm_f [OF that]], simp)
  have f3: "same_outside ?R (disk st) (disk (step_state (make_package e VERSION k npm os cpu (st\<lparr>disk := d1\<rparr>))))"
    using same_outside_trans [OF f1] pk [of "st\<lparr>disk := d1\<rparr>"] by simp
  show ?thesis
  proof (cases "is_file (disk st) ?a")
    case True
    then show ?thesis using assms cpu pk [of st] by (simp add: buildOne_def Let_def)
  next
    case False
    show ?thesis
    proof (cases ok)
      case True
      then show ?thesis using assms cpu False c f3 by (simp add: buildOne_def Let_def)
    next
      case ok: False
      show ?thesis
      proof (cases "rm_f ?a d1")
        case None
        then show ?thesis using assms cpu False c ok f1 by (simp add: buildOne_def Let_def step_state_def)
      next
        case (Some d2)
        then show ?thesis using assms cpu False c ok f2 [OF Some] by (simp add: buildOne_def Let_def step_state_def)
      qed
    qed
  qed
qed

lemma buildOne_unknown_key:
  "map_of PLATFORMS k = None \<Longrightarrow> buildOne e VERSION k st = Abort st"
  by (simp add: buildOne_def)

lemma built_make_package:
  "BUILT_PLATFORMS (step_state (make_package e VERSION k npm os cpu st)) = BUILT_PLATFORMS st
   \<or> BUILT_PLATFORMS (step_state (make_package e VERSION k npm os cpu st)) = BUILT_PLATFORMS st @ [npm]"
  by (auto simp: make_package_def step_state_def Let_def split: option.splits prod.splits bool.splits)

lemma built_buildOne:
  assumes "map_of PLATFORMS k = Some npm"
  shows "BUILT_PLATFORMS (step_state (buildOne e VERSION k st)) = BUILT_PLATFORMS st
   \<or> BUILT_PLATFORMS (step_state (buildOne e VERSION k st)) = BUILT_PLATFORMS st @ [npm]"
proof -
  have 1: "BUILT_PLATFORMS (step_state (make_package e VERSION k npm os cpu (st\<lparr>disk := d\<rparr>))) = BUILT_PLATFORMS st
   \<or> BUILT_PLATFORMS (step_state (make_package e VERSION k npm os cpu (st\<lparr>disk := d\<rparr>))) = BUILT_PLATFORMS st @ [npm]" for os cpu d
    using built_make_package [of e VERSION k npm os cpu "st\<lparr>disk := d\<rparr>"] by simp
  show ?thesis
    using assms 1 built_make_package [of e VERSION k npm _ _ st]
    by (auto simp: buildOne_def Let_def step_state_def split: option.splits prod.splits bool.splits)
qed

subsection \<open>A platform whose download fails\<close>

lemma platform_key_unique:
  "map_of PLATFORMS k = Some npm \<Longrightarrow> map_of PLATFORMS k' = Some npm \<Longrightarrow> k = k'"
  by (auto simp: PLATFORMS_def split: if_splits)

lemma platform_os:
  "map_of PLATFORMS k = Some npm \<Longrightarrow> \<exists>os. map_of OS_MAP npm = Some os"
  by (auto simp: PLATFORMS_def OS_MAP_def split: if_splits)

lemma archive_name_unique:
  assumes "map_of PLATFORMS k = Some npm" and "map_of PLATFORMS k' = Some npm'"
    and "archive_name os VERSION k = archive_name os' VERSION k'"
  shows "k = k'"
  using assms by (auto simp: PLATFORMS_def archive_name_def split: if_splits)

lemma archive_name_not_packages: "archive_name os VERSION k \<noteq> ''packages''"
  by (simp add: archive_name_def)



lemma nothing_of_other_platform:
  assumes P: "map_of PLATFORMS P = Some npm" "map_of OS_MAP npm = Some os"
    and k: "k \<noteq> P"
    and inv: "nothing_of e VERSION P npm os st"
  shows "nothing_of e VERSION P npm os (step_state (buildOne e VERSION k st))"
proof (cases "map_of PLATFORMS k")
  case None
  then show ?thesis using inv by (simp add: buildOne_unknown_key step_state_def)
next
  case (Some npm')
  obtain os' where os': "map_of OS_MAP npm' = Some os'"
    using platform_os [OF Some] by blast
  let ?st' = "step_state (buildOne e VERSION k st)"
  have ne: "npm' \<noteq> npm"
    using platform_key_unique [OF Some, of P] P(1) k by auto
  have an: "archive_name os VERSION P \<noteq> archive_name os' VERSION k"
    using archive_name_unique [OF P(1) Some, of os VERSION os'] k by auto
  note fr = frame_buildOne [OF Some os', of e VERSION st, unfolded same_outside_def, rule_format]
  have a: "\<not> near (pkg_dir e npm') (archive_path e os VERSION P)"
    using archive_name_not_packages [of os VERSION P]
    by (auto simp: near_def pkg_dir_def archive_path_def)
  have "map_of (disk ?st') (archive_path e os VERSION P) = map_of (disk st) (archive_path e os VERSION P)"
    by (rule fr) (use a an in \<open>simp add: archive_path_def\<close>)
  then have 1: "map_of (disk ?st') (archive_path e os VERSION P) = None"
    using inv by (simp add: nothing_of_def)
  have 2: "map_of (disk ?st') q = None" if q: "prefix (pkg_dir e npm) q" for q
  proof -
    have "\<not> near (pkg_dir e npm') q"
    proof
      assume "near (pkg_dir e npm') q"
      then have "prefix (pkg_dir e npm') (pkg_dir e npm) \<or> prefix (pkg_dir e npm) (pkg_dir e npm')"
        using q prefix_same_cases prefix_order.trans unfolding near_def by blast
      then show False using ne by (auto simp: pkg_dir_def)
    qed
    moreover have "q \<noteq> archive_path e os' VERSION k"
      using q by (auto simp: pkg_dir_def archive_path_def prefix_def)
    ultimately have "map_of (disk ?st') q = map_of (disk st) q"
      by (intro fr) simp
    then show ?thesis using inv q by (simp add: nothing_of_def)
  qed
  have 3: "npm \<notin> set (BUILT_PLATFORMS ?st')"
    using built_buildOne [OF Some, of e VERSION st] inv ne by (auto simp: nothing_of_def)
  show ?thesis using 1 2 3 by (simp add: nothing_of_def)
qed

lemma for_platforms_skips:
  assumes P: "map_of PLATFORMS P = Some npm" "map_of OS_MAP npm = Some os"
    and dl: "curl e (download_url VERSION (archive_name os VERSION P)) = Failed partial"
    and inv: "nothing_of e VERSION P npm os st"
  shows "for_platforms e VERSION ks st = for_platforms e VERSION (removeAll P ks) st
       \<and> nothing_of e VERSION P npm os (step_state (for_platforms e VERSION ks st))"
  using inv
proof (induction ks arbitrary: st)
  case Nil
  then show ?case by (simp add: step_state_def)
next
  case (Cons k ks)
  show ?case
  proof (cases "k = P")
    case True
    have "buildOne e VERSION P st = Next st"
      using buildOne_failed_download [OF P dl] Cons.prems by (simp add: nothing_of_def)
    then have h: "for_platforms e VERSION (k # ks) st = for_platforms e VERSION ks st"
      using True by simp
    have e1: "for_platforms e VERSION ks st = for_platforms e VERSION (removeAll P ks) st"
      and i1: "nothing_of e VERSION P npm os (step_state (for_platforms e VERSION ks st))"
      using Cons.IH [OF Cons.prems] by blast+
    show ?thesis unfolding h using True e1 i1 by simp
  next
    case False
    have inv': "nothing_of e VERSION P npm os (step_state (buildOne e VERSION k st))"
      by (rule nothing_of_other_platform [OF P False Cons.prems])
    show ?thesis
    proof (cases "buildOne e VERSION k st")
      case (Next st')
      then show ?thesis using False inv' Cons.IH [of st'] by (auto simp: step_state_def)
    next
      case (Abort st')
      then show ?thesis using False inv' by (simp add: step_state_def)
    qed
  qed
qed

lemma key_order_irrelevant:
  "DIST_DIR (e\<lparr>key_order := ks\<rparr>) = DIST_DIR e"
  "archive_path (e\<lparr>key_order := ks\<rparr>) = archive_path e"
  "pkg_dir (e\<lparr>key_order := ks\<rparr>) = pkg_dir e"
  "curl_o (e\<lparr>key_order := ks\<rparr>) = curl_o e"
  "root_manifest (e\<lparr>key_order := ks\<rparr>) = root_manifest e"
  "read_json (e\<lparr>key_order := ks\<rparr>) = read_json e"
  by (simp_all add: fun_eq_iff DIST_DIR_def archive_path_def pkg_dir_def curl_o_def
      root_manifest_def read_json_def
      cong: option.case_cong node.case_cong content.case_cong fetch.case_cong)

lemma make_package_key_order:
  "make_package (e\<lparr>key_order := ks\<rparr>) = make_package e"
  by (simp add: fun_eq_iff make_package_def key_order_irrelevant Let_def
      cong: option.case_cong prod.case_cong bool.case_cong if_cong)

lemma buildOne_key_order:
  "buildOne (e\<lparr>key_order := ks\<rparr>) VERSION k st = buildOne e VERSION k st"
  by (simp add: buildOne_def key_order_irrelevant make_package_key_order Let_def
      cong: option.case_cong prod.case_cong bool.case_cong if_cong)

lemma for_platforms_key_order:
  "for_platforms (e\<lparr>key_order := ks'\<rparr>) VERSION ks st = for_platforms e VERSION ks st"
  by (induction ks arbitrary: st) (simp_all add: buildOne_key_order split: step.splits)

lemma update_version_key_order:
  "update_version (e\<lparr>key_order := ks\<rparr>) VERSION d = update_version e VERSION d"
  by (simp add: update_version_def key_order_irrelevant cong: option.case_cong)

lemma nothing_of_start:
  assumes "mkdir_p (DIST_DIR e @ [''packages'']) (rm_rf (DIST_DIR e) d0) = Some d1"
  shows "nothing_of e VERSION P npm os \<lparr>disk = d1, BUILT_PLATFORMS = []\<rparr>"
proof -
  have d1: "d1 = missing_dirs (DIST_DIR e @ [''packages'']) (rm_rf (DIST_DIR e) d0) @ rm_rf (DIST_DIR e) d0"
    using assms by (auto simp: mkdir_p_def split: if_splits)
  have "map_of d1 q = None" if "prefix (DIST_DIR e) q" "\<not> prefix q (DIST_DIR e @ [''packages''])" for q
    using that unfolding d1 by (simp add: map_of_missing_dirs map_of_rm_rf del: map_of_append)
  moreover have "\<not> prefix (archive_path e os VERSION P) (DIST_DIR e @ [''packages''])"
    using archive_name_not_packages [of os VERSION P] by (auto simp: archive_path_def)
  moreover have "\<not> prefix q (DIST_DIR e @ [''packages''])" "prefix (DIST_DIR e) q"
    if "prefix (pkg_dir e npm) q" for q
    using that by (auto simp: pkg_dir_def prefix_def)
  ultimately show ?thesis
    by (auto simp: nothing_of_def archive_path_def)
qed

lemma nothing_of_disk:
  assumes "nothing_of e VERSION P npm os st"
    and "same_outside (\<lambda>p. p = root_manifest e) (disk st) d2"
  shows "nothing_of e VERSION P npm os (st\<lparr>disk := d2\<rparr>)"
proof -
  have "archive_path e os VERSION P \<noteq> root_manifest e"
    by (simp add: archive_path_def root_manifest_def DIST_DIR_def)
  moreover have "q \<noteq> root_manifest e" if "prefix (pkg_dir e npm) q" for q
    using that by (auto simp: pkg_dir_def root_manifest_def DIST_DIR_def prefix_def)
  ultimately show ?thesis
    using assms by (auto simp: nothing_of_def same_outside_def)
qed

lemma nothing_of_removed:
  "nothing_of e VERSION P npm os \<lparr>disk = rm_rf (DIST_DIR e) d0, BUILT_PLATFORMS = []\<rparr>"
proof -
  have "prefix (DIST_DIR e) (archive_path e os VERSION P)"
    by (simp add: archive_path_def)
  moreover have "prefix (DIST_DIR e) q" if "prefix (pkg_dir e npm) q" for q
    using that by (auto simp: pkg_dir_def prefix_def)
  ultimately show ?thesis by (simp add: nothing_of_def map_of_rm_rf)
qed

text \<open>
  What holds of a failed download: when the download of the archive of platform \<open>P\<close>
  fails, the pass of the loop for \<open>P\<close> removes what curl has left and changes nothing
  else; the whole run is the run over the other platforms; and in the state in which the
  run ends, however it ends, there is no archive file of \<open>P\<close>, nothing at or below the
  package directory of \<open>P\<close>, and \<open>P\<close> is not in the summary of the platforms built.
\<close>

lemma failed_download_skips_platform:
  assumes "VERSION \<noteq> []"
    and "map_of PLATFORMS P = Some npm" and "map_of OS_MAP npm = Some os"
    and "curl e (download_url VERSION (archive_name os VERSION P)) = Failed partial"
  shows "(\<forall>st. map_of (disk st) (archive_path e os VERSION P) = None \<longrightarrow>
            buildOne e VERSION P st = Next st)
       \<and> buildAll e VERSION d0 = buildAll (e\<lparr>key_order := removeAll P (key_order e)\<rparr>) VERSION d0
       \<and> (\<exists>st. buildAll e VERSION d0 \<in> {Finished st, Aborted st, Other st}
              \<and> nothing_of e VERSION P npm os st)"
proof -
  let ?e' = "e\<lparr>key_order := removeAll P (key_order e)\<rparr>"
  have one: "\<forall>st. map_of (disk st) (archive_path e os VERSION P) = None \<longrightarrow>
            buildOne e VERSION P st = Next st"
    using buildOne_failed_download [OF assms(2,3,4)] by blast
  have rest: "buildAll e VERSION d0 = buildAll ?e' VERSION d0
       \<and> (\<exists>st. buildAll e VERSION d0 \<in> {Finished st, Aborted st, Other st}
              \<and> nothing_of e VERSION P npm os st)"
  proof (cases "mkdir_p (DIST_DIR e @ [''packages'']) (rm_rf (DIST_DIR e) d0)")
    case None
    then show ?thesis
      using assms(1) nothing_of_removed [of e VERSION P npm os d0]
      by (auto simp: buildAll_def key_order_irrelevant)
  next
    case (Some d1)
    let ?st0 = "\<lparr>disk = d1, BUILT_PLATFORMS = []\<rparr>"
    have loop: "for_platforms e VERSION (key_order e) ?st0
          = for_platforms e VERSION (removeAll P (key_order e)) ?st0"
      and loop_inv: "nothing_of e VERSION P npm os
          (step_state (for_platforms e VERSION (key_order e) ?st0))"
      using for_platforms_skips [OF assms(2,3,4) nothing_of_start [OF Some], of "key_order e"]
      by blast+
    have eq: "for_platforms ?e' VERSION (key_order ?e') ?st0 = for_platforms e VERSION (key_order e) ?st0"
      using loop by (simp add: for_platforms_key_order)
    have same: "buildAll e VERSION d0 = buildAll ?e' VERSION d0"
      using Some eq
      by (simp add: buildAll_def key_order_irrelevant update_version_key_order
          del: for_platforms.simps cong: step.case_cong update.case_cong if_cong)
    show ?thesis
    proof (cases "for_platforms e VERSION (key_order e) ?st0")
      case (Abort st)
      then have "buildAll e VERSION d0 = Aborted st" "nothing_of e VERSION P npm os st"
        using Some assms(1) loop_inv by (simp_all add: buildAll_def step_state_def)
      then show ?thesis using same by auto
    next
      case (Next st)
      then have inv: "nothing_of e VERSION P npm os st"
        using loop_inv by (simp add: step_state_def)
      show ?thesis
      proof (cases "update_version e VERSION (disk st)")
        case (Wrote d2)
        then have "same_outside (\<lambda>p. p = root_manifest e) (disk st) d2"
          by (auto simp: update_version_def same_outside_write_file split: option.splits)
        then have "nothing_of e VERSION P npm os (st\<lparr>disk := d2\<rparr>)"
          by (rule nothing_of_disk [OF inv])
        moreover have "buildAll e VERSION d0 \<in> {Finished (st\<lparr>disk := d2\<rparr>), Aborted (st\<lparr>disk := d2\<rparr>)}"
          using Some assms(1) Next Wrote by (simp add: buildAll_def)
        ultimately show ?thesis using same by auto
      next
        case Node_failed
        then have "buildAll e VERSION d0 = Aborted st"
          using Some assms(1) Next by (simp add: buildAll_def)
        then show ?thesis using same inv by auto
      next
        case Other_script
        then have "buildAll e VERSION d0 = Other st"
          using Some assms(1) Next by (simp add: buildAll_def)
        then show ?thesis using same inv by auto
      qed
    qed
  qed
  show ?thesis using one rest by blast
qed

lemma demo_run:
  "\<exists>st. buildAll (demo_env only_first) ''1.2.3'' clean_repo = Finished st
      \<and> BUILT_PLATFORMS st = [''linux-x64'']"
proof -
  have "(case buildAll (demo_env only_first) ''1.2.3'' clean_repo of
           Finished st \<Rightarrow> BUILT_PLATFORMS st = [''linux-x64''] | _ \<Rightarrow> False)"
    by code_simp
  then show ?thesis
    by (cases "buildAll (demo_env only_first) ''1.2.3'' clean_repo") simp_all
qed

lemma demo_facts:
  "plain ''1.2.3''"
  "read_json (demo_env only_first) clean_repo (root_manifest (demo_env only_first)) = Some (JObj manifest_props)"
  "map_of PLATFORMS ''Linux_arm64'' = Some ''linux-arm64''"
  "map_of OS_MAP ''linux-arm64'' = Some ''linux''"
  "curl (demo_env only_first) (download_url ''1.2.3'' (archive_name ''linux'' ''1.2.3'' ''Linux_arm64''))
     = Failed (Some (Bytes ''partial''))"
  "map_of (disk started) (archive_path (demo_env only_first) ''linux'' ''1.2.3'' ''Linux_arm64'') = None"
  by (simp_all add: plain_def read_json_def demo_env_def clean_repo_def root_manifest_def
      PLATFORMS_def OS_MAP_def only_first_def download_url_def archive_name_def started_def
      archive_path_def DIST_DIR_def)

lemma failed_download_skips_platform_example:
  "''1.2.3'' \<noteq> []
   \<and> map_of PLATFORMS ''Linux_arm64'' = Some ''linux-arm64''
   \<and> map_of OS_MAP ''linux-arm64'' = Some ''linux''
   \<and> curl (demo_env only_first) (download_url ''1.2.3'' (archive_name ''linux'' ''1.2.3'' ''Linux_arm64''))
       = Failed (Some (Bytes ''partial''))
   \<and> buildOne (demo_env only_first) ''1.2.3'' ''Linux_arm64'' started = Next started
   \<and> (\<exists>st. buildAll (demo_env only_first) ''1.2.3'' clean_repo = Finished st
          \<and> BUILT_PLATFORMS st = [''linux-x64'']
          \<and> nothing_of (demo_env only_first) ''1.2.3'' ''Linux_arm64'' ''linux-arm64'' ''linux'' st)"
proof -
  have v: "''1.2.3'' \<noteq> []" by simp
  note T = failed_download_skips_platform [OF v demo_facts(3,4,5), of clean_repo]
  from T have 1: "buildOne (demo_env only_first) ''1.2.3'' ''Linux_arm64'' started = Next started"
    using demo_facts(6) by blast
  obtain st where st: "buildAll (demo_env only_first) ''1.2.3'' clean_repo = Finished st"
    "BUILT_PLATFORMS st = [''linux-x64'']"
    using demo_run by blast
  from T obtain st' where "buildAll (demo_env only_first) ''1.2.3'' clean_repo \<in> {Finished st', Aborted st', Other st'}"
    "nothing_of (demo_env only_first) ''1.2.3'' ''Linux_arm64'' ''linux-arm64'' ''linux'' st'"
    by blast
  then have "nothing_of (demo_env only_first) ''1.2.3'' ''Linux_arm64'' ''linux-arm64'' ''linux'' st"
    using st(1) by auto
  then show ?thesis using v demo_facts(3,4,5) 1 st by blast
qed


subsection \<open>The fallback extraction\<close>

text \<open>
  C1: an archive with the binary deeper inside a folder is to be handled by the fallback,
  which leaves the binary alone in the package. For a tar archive with the binary at
  \<open>release/linux/crush\<close> the first strategy already succeeds: its pattern \<open>*/crush\<close>
  selects the member, which is unpacked without its first component to
  \<open>bin/linux/crush\<close>, so the \<open>||\<close> list ends there and the fallback does not run;
  \<open>bin/crush\<close> is not there, the package directory is removed and the platform is left
  out. The zip path, whose first strategy drops the directories, builds the package from
  the same layout, with nothing but the binary, the manifest and the description in it.
\<close>

theorem nested_tarball_is_not_built:
  "(case buildOne (demo_env (\<lambda>url. Fetched (Packed nested_tarball))) ''0.43.0'' ''Linux_x86_64'' started of
      Next st \<Rightarrow>
        BUILT_PLATFORMS st = []
      \<and> map fst (disk st) =
          [[''repo'', ''dist'', ''crush_0.43.0_Linux_x86_64.tar.gz''],
           [''repo'', ''dist'', ''packages''], [''repo'', ''dist''], [''repo''],
           [''repo'', ''package.json'']]
    | Abort st \<Rightarrow> False)
   \<and> (case buildOne (demo_env (\<lambda>url. Fetched (Packed nested_zip))) ''0.43.0'' ''Windows_x86_64'' started of
      Next st \<Rightarrow>
        BUILT_PLATFORMS st = [''win32-x64'']
      \<and> map fst (filter (\<lambda>entry. prefix [''repo'', ''dist'', ''packages'', ''crush-corp-win32-x64''] (fst entry))
                  (disk st)) =
          [[''repo'', ''dist'', ''packages'', ''crush-corp-win32-x64'', ''README.md''],
           [''repo'', ''dist'', ''packages'', ''crush-corp-win32-x64'', ''package.json''],
           [''repo'', ''dist'', ''packages'', ''crush-corp-win32-x64'', ''bin'', ''crush.exe''],
           [''repo'', ''dist'', ''packages'', ''crush-corp-win32-x64''],
           [''repo'', ''dist'', ''packages'', ''crush-corp-win32-x64'', ''bin'']]
    | Abort st \<Rightarrow> False)"
  by code_simp

subsection \<open>An archive that cannot be read\<close>

lemma usage_only_without_version: "buildAll e VERSION d = Usage \<longleftrightarrow> VERSION = []"
  by (simp add: buildAll_def split: option.splits step.splits update.splits)

text \<open>
  C3: no failure of one platform is to end the run, and the status is to be 0. When the
  download of \<open>linux-arm64\<close> gives a file that is no archive, all three strategies fail;
  the last of them ends the \<open>||\<close> list, so \<open>set -e\<close> ends the script there with a
  non-zero status: \<open>linux-x64\<close>, built before, is the only platform, the four platforms
  after it are never downloaded, and the root manifest is not rewritten.
\<close>

theorem unreadable_archive_aborts_build:
  "(case buildAll (demo_env one_unreadable) ''0.43.0'' clean_repo of
      Aborted st \<Rightarrow>
        BUILT_PLATFORMS st = [''linux-x64'']
      \<and> \<not> is_file (disk st) [''repo'', ''dist'', ''crush_0.43.0_Darwin_x86_64.tar.gz'']
      \<and> map_of (disk st) [''repo'', ''package.json''] = Some (File (Bytes ''manifest'') False)
    | _ \<Rightarrow> False)
   \<and> \<not> exit_status_0 (buildAll (demo_env one_unreadable) ''0.43.0'' clean_repo)"
  by code_simp

subsection \<open>The version of the root package\<close>



lemma js_terms_plain: "plain s \<Longrightarrow> js_terms (s @ [CHR 0x27]) = Some [Literal s]"
  by (induction s) (auto simp: plain_def add_char_def)

lemma js_value_literal: "js_value [Literal V] props = V"
  by (simp add: js_value_def)

lemma for_in_dependencies_version:
  "map_of (for_in_dependencies V p) ''version'' = map_of p ''version''"
proof (cases "map_of p ''optionalDependencies''")
  case None
  then show ?thesis by (simp add: for_in_dependencies_def)
next
  case (Some od)
  then show ?thesis by (cases od) (simp_all add: for_in_dependencies_def update_conv')
qed

lemma for_in_dependencies_again: "for_in_dependencies V (for_in_dependencies V p) = for_in_dependencies V p"
proof (cases "map_of p ''optionalDependencies''")
  case None
  then show ?thesis by (simp add: for_in_dependencies_def)
next
  case (Some od)
  have f: "(\<lambda>(dep, old). (dep, JStr V)) \<circ> (\<lambda>(dep, old). (dep, JStr V))
      = (\<lambda>(dep :: string, old :: json). (dep, JStr V))"
    by (auto simp: fun_eq_iff)
  show ?thesis
  proof (cases od)
    case (JObj deps)
    then show ?thesis using Some by (simp add: for_in_dependencies_def update_conv' f)
  next
    case (JArr deps)
    then show ?thesis using Some by (simp add: for_in_dependencies_def update_conv' comp_def)
  qed (use Some in \<open>simp_all add: for_in_dependencies_def\<close>)
qed

lemma set_versions_again:
  assumes "set_versions [Literal V] pkg = Some pkg'"
  shows "set_versions [Literal V] pkg' = Some pkg'"
proof (cases pkg)
  case (JObj props)
  let ?p1 = "AList.update ''version'' (JStr V) props"
  have pkg': "pkg' = JObj (for_in_dependencies V ?p1)"
    using assms JObj by (simp add: js_value_literal)
  have "map_of (for_in_dependencies V ?p1) ''version'' = Some (JStr V)"
    by (simp add: for_in_dependencies_version update_conv')
  then have "AList.update ''version'' (JStr V) (for_in_dependencies V ?p1) = for_in_dependencies V ?p1"
    by (rule update_triv)
  then show ?thesis
    unfolding pkg' by (simp add: for_in_dependencies_again js_value_literal)
next
  case JNull
  then show ?thesis using assms by simp
qed (use assms in auto)

text \<open>
  What holds of the version-update step: for a version that node reads as one string
  literal, as every version without quote, backslash or line break, the step run a second
  time on the disk that its first run has left leaves that disk as it is, byte for byte;
  when node fails, both runs write nothing.
\<close>

lemma literal_version_update_idempotent:
  assumes "js_terms (VERSION @ [CHR 0x27]) = Some [Literal V]"
    and a: "after_update e VERSION d = Some d1"
  shows "after_update e VERSION d1 = Some d1"
proof (cases "update_version e VERSION d")
  case Node_failed
  then show ?thesis using a by (simp add: after_update_def)
next
  case Other_script
  then show ?thesis using a by (simp add: after_update_def)
next
  case (Wrote d')
  then have d': "d' = d1" using a by (simp add: after_update_def)
  let ?m = "root_manifest e"
  obtain pkg pkg' where r: "read_json e d ?m = Some pkg"
    and s: "set_versions [Literal V] pkg = Some pkg'"
    and w: "write_file ?m (Pretty pkg' nl) d = Some d1"
    using Wrote d' assms(1) by (auto simp: update_version_def split: option.splits)
  define x where "x = (case map_of d ?m of Some (File old x) \<Rightarrow> x | _ \<Rightarrow> False)"
  have ok: "is_dir d (butlast ?m)" "map_of d ?m \<noteq> Some Dir"
    and d1: "d1 = put ?m (File (Pretty pkg' nl) x) d"
    using w by (auto simp: write_file_def x_def split: if_splits)
  have m: "butlast ?m \<noteq> ?m" by (simp add: root_manifest_def)
  have r1: "read_json e d1 ?m = Some pkg'"
    by (simp add: read_json_def d1 map_of_put nl_def)
  have dir1: "is_dir d1 (butlast ?m)"
    using ok(1) m by (simp add: is_dir_def d1 map_of_put)
  have "put ?m (File (Pretty pkg' nl) x) d1 = d1"
    by (simp add: d1 put_def)
  then have w1: "write_file ?m (Pretty pkg' nl) d1 = Some d1"
    using dir1 by (simp add: write_file_def d1 map_of_put root_manifest_def)
  show ?thesis
    using assms(1) r1 set_versions_again [OF s] w1
    by (simp add: after_update_def update_version_def)
qed

lemma plain_version_update_idempotent:
  "plain VERSION \<Longrightarrow> after_update e VERSION d \<noteq> None"
  "plain VERSION \<Longrightarrow> after_update e VERSION d = Some d1 \<Longrightarrow> after_update e VERSION d1 = Some d1"
proof -
  assume p: "plain VERSION"
  show "after_update e VERSION d \<noteq> None"
    using js_terms_plain [OF p]
    by (simp add: after_update_def update_version_def split: option.splits)
  show "after_update e VERSION d1 = Some d1" if "after_update e VERSION d = Some d1"
    using js_terms_plain [OF p] that by (rule literal_version_update_idempotent)
qed

text \<open>
  C5: the version-update step is to be idempotent for every version string. The version
  \<open>'+pkg.version+'-rc\<close> makes line 163 the statement
  \<open>pkg.version = ''+pkg.version+'-rc';\<close> which appends to the version that the manifest
  holds: on the manifest at version \<open>0.42.0\<close> the first run writes \<open>0.42.0-rc\<close> (and
  \<open>0.42.0-rc-rc\<close> for the dependencies, line 167), the second run with the same version
  string writes \<open>0.42.0-rc-rc\<close>, and the two files differ.
\<close>

theorem version_text_appends_each_run:
  "(case after_update (demo_env all_fetched) ([CHR 0x27] @ ''+pkg.version+'' @ [CHR 0x27] @ ''-rc'') clean_repo of
      Some d1 \<Rightarrow>
        manifest_property (demo_env all_fetched) d1 ''version'' = Some (JStr ''0.42.0-rc'')
      \<and> manifest_property (demo_env all_fetched) d1 ''optionalDependencies'' = Some (JObj
           [(''@anthropic-ai/crush-corp-linux-x64'', JStr ''0.42.0-rc-rc''),
            (''@anthropic-ai/crush-corp-win32-x64'', JStr ''0.42.0-rc-rc'')])
      \<and> (case after_update (demo_env all_fetched) ([CHR 0x27] @ ''+pkg.version+'' @ [CHR 0x27] @ ''-rc'') d1 of
            Some d2 \<Rightarrow>
              manifest_property (demo_env all_fetched) d2 ''version'' = Some (JStr ''0.42.0-rc-rc'')
            \<and> manifest_property (demo_env all_fetched) d2 ''optionalDependencies'' = Some (JObj
                 [(''@anthropic-ai/crush-corp-linux-x64'', JStr ''0.42.0-rc-rc-rc''),
                  (''@anthropic-ai/crush-corp-win32-x64'', JStr ''0.42.0-rc-rc-rc'')])
            \<and> d2 \<noteq> d1
          | None \<Rightarrow> False)
    | None \<Rightarrow> False)"
  by code_simp

lemma manifest_not_near:
  "\<not> near (pkg_dir e npm) (root_manifest e)" "root_manifest e \<noteq> archive_path e os VERSION k"
  "\<not> prefix (DIST_DIR e) (root_manifest e)" "\<not> prefix (root_manifest e) (DIST_DIR e @ [''packages''])"
  by (auto simp: near_def pkg_dir_def root_manifest_def archive_path_def DIST_DIR_def)

lemma manifest_kept_buildOne:
  "map_of (disk (step_state (buildOne e VERSION k st))) (root_manifest e)
   = map_of (disk st) (root_manifest e)"
proof (cases "map_of PLATFORMS k")
  case None
  then show ?thesis by (simp add: buildOne_unknown_key step_state_def)
next
  case (Some npm)
  obtain os where os: "map_of OS_MAP npm = Some os"
    using platform_os [OF Some] by blast
  show ?thesis
    using frame_buildOne [OF Some os, of e VERSION st] manifest_not_near(1) [of e npm]
      manifest_not_near(2) [of e os VERSION k]
    by (simp add: same_outside_def)
qed

lemma manifest_kept_for_platforms:
  "map_of (disk (step_state (for_platforms e VERSION ks st))) (root_manifest e)
   = map_of (disk st) (root_manifest e)"
proof (induction ks arbitrary: st)
  case Nil
  show ?case by (simp add: step_state_def)
next
  case (Cons k ks)
  show ?case
  proof (cases "buildOne e VERSION k st")
    case (Next st')
    then show ?thesis
      using Cons.IH [of st'] manifest_kept_buildOne [of e VERSION k st] by (simp add: step_state_def)
  next
    case (Abort st')
    then show ?thesis
      using manifest_kept_buildOne [of e VERSION k st] by (simp add: step_state_def)
  qed
qed

lemma manifest_kept_start:
  assumes "mkdir_p (DIST_DIR e @ [''packages'']) (rm_rf (DIST_DIR e) d0) = Some d1"
  shows "map_of d1 (root_manifest e) = map_of d0 (root_manifest e)"
proof -
  have "d1 = missing_dirs (DIST_DIR e @ [''packages'']) (rm_rf (DIST_DIR e) d0) @ rm_rf (DIST_DIR e) d0"
    using assms by (auto simp: mkdir_p_def split: if_splits)
  then show ?thesis
    using manifest_not_near(3,4) [of e]
    by (simp add: map_of_missing_dirs map_of_rm_rf del: map_of_append)
qed

lemma for_in_dependencies_other:
  "k \<noteq> ''optionalDependencies'' \<Longrightarrow> map_of (for_in_dependencies V p) k = map_of p k"
proof (cases "map_of p ''optionalDependencies''")
  case None
  then show ?thesis by (simp add: for_in_dependencies_def)
next
  case (Some od)
  assume "k \<noteq> ''optionalDependencies''"
  then show ?thesis using Some by (cases od) (simp_all add: for_in_dependencies_def update_conv')
qed

lemma for_in_dependencies_keys: "map fst (for_in_dependencies V p) = map fst p"
proof (cases "map_of p ''optionalDependencies''")
  case None
  then show ?thesis by (simp add: for_in_dependencies_def)
next
  case (Some od)
  then have "''optionalDependencies'' \<in> fst ` set p"
    using map_of_SomeD [of p "''optionalDependencies''" od] by force
  then show ?thesis using Some by (cases od) (simp_all add: for_in_dependencies_def update_keys)
qed

text \<open>
  What holds of the root manifest: when \<open>buildAll\<close> finishes for a version without quote,
  backslash or line break, and the root manifest was an object before the run, then the
  root manifest is
  that object, printed by \<open>JSON.stringify\<close>, with \<open>version\<close> equal to the version, every
  entry of the \<open>optionalDependencies\<close> object equal to the version under the same names,
  every other property as it was, and the properties in their old order (\<open>version\<close> is
  added at the end when it was missing).
\<close>

lemma root_manifest_gets_version:
  assumes "buildAll e VERSION d0 = Finished st"
    and "plain VERSION"
    and "read_json e d0 (root_manifest e) = Some (JObj props)"
  shows "\<exists>props' x.
           map_of (disk st) (root_manifest e) = Some (File (Pretty (JObj props') nl) x)
         \<and> map_of props' ''version'' = Some (JStr VERSION)
         \<and> (\<forall>deps. map_of props ''optionalDependencies'' = Some (JObj deps) \<longrightarrow>
               map_of props' ''optionalDependencies''
                 = Some (JObj (map (\<lambda>(dep, old). (dep, JStr VERSION)) deps)))
         \<and> (\<forall>k. k \<noteq> ''version'' \<and> k \<noteq> ''optionalDependencies'' \<longrightarrow>
               map_of props' k = map_of props k)
         \<and> map fst props' = map fst (AList.update ''version'' (JStr VERSION) props)"
proof -
  let ?m = "root_manifest e"
  obtain d1 where d1: "mkdir_p (DIST_DIR e @ [''packages'']) (rm_rf (DIST_DIR e) d0) = Some d1"
    using assms(1) by (auto simp: buildAll_def split: if_splits option.splits)
  let ?st0 = "\<lparr>disk = d1, BUILT_PLATFORMS = []\<rparr>"
  obtain st1 where st1: "for_platforms e VERSION (key_order e) ?st0 = Next st1"
    using assms(1) d1 by (auto simp: buildAll_def split: if_splits step.splits)
  obtain d2 where d2: "update_version e VERSION (disk st1) = Wrote d2" and st: "st = st1\<lparr>disk := d2\<rparr>"
    using assms(1) d1 st1 by (auto simp: buildAll_def split: if_splits update.splits)
  have "map_of (disk st1) ?m = map_of d0 ?m"
    using manifest_kept_for_platforms [of e VERSION "key_order e" ?st0] st1 manifest_kept_start [OF d1]
    by (simp add: step_state_def)
  then have r: "read_json e (disk st1) ?m = Some (JObj props)"
    using assms(3) by (simp add: read_json_def)
  let ?props' = "for_in_dependencies VERSION (AList.update ''version'' (JStr VERSION) props)"
  have "write_file ?m (Pretty (JObj ?props') nl) (disk st1) = Some d2"
    using d2 r js_terms_plain [OF assms(2)]
    by (simp add: update_version_def js_value_literal split: option.splits)
  then obtain x where m: "map_of d2 ?m = Some (File (Pretty (JObj ?props') nl) x)"
    by (auto simp: write_file_def map_of_put split: if_splits)
  have 1: "map_of ?props' ''version'' = Some (JStr VERSION)"
    by (simp add: for_in_dependencies_other update_conv')
  have 2: "map_of ?props' ''optionalDependencies''
         = Some (JObj (map (\<lambda>(dep, old). (dep, JStr VERSION)) deps))"
    if "map_of props ''optionalDependencies'' = Some (JObj deps)" for deps
    using that by (simp add: for_in_dependencies_def update_conv')
  have 3: "map_of ?props' k = map_of props k"
    if "k \<noteq> ''version'' \<and> k \<noteq> ''optionalDependencies''" for k
    using that by (simp add: for_in_dependencies_other update_conv')
  have 4: "map fst ?props' = map fst (AList.update ''version'' (JStr VERSION) props)"
    by (rule for_in_dependencies_keys)
  show ?thesis
    using m 1 2 3 4 unfolding st by (intro exI [of _ ?props'] exI [of _ x]) simp
qed

lemma root_manifest_gets_version_example:
  "plain ''1.2.3''
   \<and> read_json (demo_env only_first) clean_repo (root_manifest (demo_env only_first)) = Some (JObj manifest_props)
   \<and> (\<exists>st props' x.
         buildAll (demo_env only_first) ''1.2.3'' clean_repo = Finished st
       \<and> map_of (disk st) (root_manifest (demo_env only_first)) = Some (File (Pretty (JObj props') nl) x)
       \<and> map_of props' ''version'' = Some (JStr ''1.2.3'')
       \<and> map_of props' ''optionalDependencies'' = Some (JObj
            [(''@anthropic-ai/crush-corp-linux-x64'', JStr ''1.2.3''),
             (''@anthropic-ai/crush-corp-win32-x64'', JStr ''1.2.3'')])
       \<and> map_of props' ''name'' = Some (JStr ''@anthropic-ai/crush-corp'')
       \<and> map fst props' = [''name'', ''version'', ''bin'', ''optionalDependencies''])"
proof -
  obtain st where st: "buildAll (demo_env only_first) ''1.2.3'' clean_repo = Finished st"
    using demo_run by blast
  have od: "map_of manifest_props ''optionalDependencies'' = Some (JObj
      [(''@anthropic-ai/crush-corp-linux-x64'', JStr ''0.42.0''),
       (''@anthropic-ai/crush-corp-win32-x64'', JStr ''0.42.0'')])"
    and nm: "map_of manifest_props ''name'' = Some (JStr ''@anthropic-ai/crush-corp'')"
    and keys: "map fst (AList.update ''version'' (JStr ''1.2.3'') manifest_props)
       = [''name'', ''version'', ''bin'', ''optionalDependencies'']"
    by (simp_all add: manifest_props_def)
  from root_manifest_gets_version [OF st demo_facts(1,2)]
  obtain props' x where
    m: "map_of (disk st) (root_manifest (demo_env only_first)) = Some (File (Pretty (JObj props') nl) x)"
    and v: "map_of props' ''version'' = Some (JStr ''1.2.3'')"
    and d: "\<forall>deps. map_of manifest_props ''optionalDependencies'' = Some (JObj deps) \<longrightarrow>
       map_of props' ''optionalDependencies'' = Some (JObj (map (\<lambda>(dep, old). (dep, JStr ''1.2.3'')) deps))"
    and o: "\<forall>k. k \<noteq> ''version'' \<and> k \<noteq> ''optionalDependencies'' \<longrightarrow> map_of props' k = map_of manifest_props k"
    and k: "map fst props' = map fst (AList.update ''version'' (JStr ''1.2.3'') manifest_props)"
    by (elim exE conjE)
  have d': "map_of props' ''optionalDependencies'' = Some (JObj
            [(''@anthropic-ai/crush-corp-linux-x64'', JStr ''1.2.3''),
             (''@anthropic-ai/crush-corp-win32-x64'', JStr ''1.2.3'')])"
    using d [rule_format, OF od] by simp
  have n': "map_of props' ''name'' = Some (JStr ''@anthropic-ai/crush-corp'')"
    using o [rule_format, of "''name''"] nm by simp
  have k': "map fst props' = [''name'', ''version'', ''bin'', ''optionalDependencies'']"
    using k keys by (rule trans)
  have "buildAll (demo_env only_first) ''1.2.3'' clean_repo = Finished st
       \<and> map_of (disk st) (root_manifest (demo_env only_first)) = Some (File (Pretty (JObj props') nl) x)
       \<and> map_of props' ''version'' = Some (JStr ''1.2.3'')
       \<and> map_of props' ''optionalDependencies'' = Some (JObj
            [(''@anthropic-ai/crush-corp-linux-x64'', JStr ''1.2.3''),
             (''@anthropic-ai/crush-corp-win32-x64'', JStr ''1.2.3'')])
       \<and> map_of props' ''name'' = Some (JStr ''@anthropic-ai/crush-corp'')
       \<and> map fst props' = [''name'', ''version'', ''bin'', ''optionalDependencies'']"
    by (intro conjI st m v d' n' k')
  then have "\<exists>st props' x.
         buildAll (demo_env only_first) ''1.2.3'' clean_repo = Finished st
       \<and> map_of (disk st) (root_manifest (demo_env only_first)) = Some (File (Pretty (JObj props') nl) x)
       \<and> map_of props' ''version'' = Some (JStr ''1.2.3'')
       \<and> map_of props' ''optionalDependencies'' = Some (JObj
            [(''@anthropic-ai/crush-corp-linux-x64'', JStr ''1.2.3''),
             (''@anthropic-ai/crush-corp-win32-x64'', JStr ''1.2.3'')])
       \<and> map_of props' ''name'' = Some (JStr ''@anthropic-ai/crush-corp'')
       \<and> map fst props' = [''name'', ''version'', ''bin'', ''optionalDependencies'']"
    by (intro exI)
  with demo_facts(1,2) show ?thesis
    by (intro conjI)
qed

text \<open>
  C4: after the run the root manifest is to hold the version given, for any version
  string. The script pastes the version between the quotes of a JavaScript string
  literal without escaping it (lines 163 and 167), so node reads the version
  \<open>0.43.0'+'\<close> as the expression \<open>'0.43.0'+''\<close>: with all six downloads succeeding the
  run finishes with all six platforms built, and the root manifest holds \<open>0.43.0\<close> as
  its version and for every optional dependency, which is not the version given. The
  same is written when all six downloads fail and every platform is skipped.
\<close>

theorem version_is_pasted_unescaped:
  "(case buildAll (demo_env all_fetched) (''0.43.0'' @ [CHR 0x27] @ ''+'' @ [CHR 0x27]) clean_repo of
      Finished st \<Rightarrow>
        BUILT_PLATFORMS st = map snd PLATFORMS
      \<and> manifest_property (demo_env all_fetched) (disk st) ''version'' = Some (JStr ''0.43.0'')
      \<and> manifest_property (demo_env all_fetched) (disk st) ''optionalDependencies'' = Some (JObj
           [(''@anthropic-ai/crush-corp-linux-x64'', JStr ''0.43.0''),
            (''@anthropic-ai/crush-corp-win32-x64'', JStr ''0.43.0'')])
    | _ \<Rightarrow> False)
   \<and> (case buildAll (demo_env (\<lambda>url. Failed None)) (''0.43.0'' @ [CHR 0x27] @ ''+'' @ [CHR 0x27]) clean_repo of
      Finished st \<Rightarrow>
        BUILT_PLATFORMS st = []
      \<and> manifest_property (demo_env (\<lambda>url. Failed None)) (disk st) ''version'' = Some (JStr ''0.43.0'')
    | _ \<Rightarrow> False)
   \<and> ''0.43.0'' @ [CHR 0x27] @ ''+'' @ [CHR 0x27] \<noteq> ''0.43.0''"
  by code_simp

end
